theory Spec2Isabelle
  imports Main "HOL-Library.Sublist"
begin

section \<open>The OpenClaw MCP server (src/index.js)\<close>

text \<open>
  A shallow embedding of \<^verbatim>\<open>src/index.js\<close>. A JavaScript string is a \<open>string\<close>; the
  model covers ASCII text: case mapping and white space act on ASCII characters, and the
  three non-ASCII characters of the output templates are written as their UTF-8 bytes.
  Numbers of the index, of the arguments and of the HTTP status are integers, printed in
  decimal as \<^verbatim>\<open>Number.prototype.toString\<close> prints them. A property that may be
  \<^verbatim>\<open>undefined\<close> is an \<open>option\<close>. A \<^verbatim>\<open>throw\<close> is the left summand of a sum.
\<close>

subsection \<open>Strings\<close>

definition NL :: char where
  "NL = CHR 0x0A"

text \<open>\<^verbatim>\<open>String.prototype.toLowerCase\<close>, on ASCII letters.\<close>

definition lower_char :: "char \<Rightarrow> char" where
  "lower_char c =
     (case map_of (zip ''ABCDEFGHIJKLMNOPQRSTUVWXYZ'' ''abcdefghijklmnopqrstuvwxyz'') c of
        Some d \<Rightarrow> d
      | None \<Rightarrow> c)"

definition toLowerCase :: "string \<Rightarrow> string" where
  "toLowerCase s = map lower_char s"

text \<open>\<^verbatim>\<open>s.includes(t)\<close>: \<open>t\<close> occurs in \<open>s\<close> as a contiguous substring.\<close>

fun str_includes :: "string \<Rightarrow> string \<Rightarrow> bool" where
  "str_includes [] t = (t = [])"
| "str_includes (x # xs) t = (prefix t (x # xs) \<or> str_includes xs t)"

text \<open>\<^verbatim>\<open>xs.join(sep)\<close> on an array of strings.\<close>

fun join :: "string \<Rightarrow> string list \<Rightarrow> string" where
  "join sep [] = []"
| "join sep [x] = x"
| "join sep (x # y # ys) = x @ sep @ join sep (y # ys)"

text \<open>Decimal printing of a number in a template literal.\<close>

definition digit_char :: "nat \<Rightarrow> char" where
  "digit_char d = ''0123456789'' ! d"

fun show_nat :: "nat \<Rightarrow> string" where
  "show_nat n = (if n < 10 then [digit_char n] else show_nat (n div 10) @ [digit_char (n mod 10)])"

declare show_nat.simps [simp del]

definition show_int :: "int \<Rightarrow> string" where
  "show_int i = (if i < 0 then CHR ''-'' # show_nat (nat (- i)) else show_nat (nat i))"

text \<open>The non-ASCII characters of the templates, in UTF-8: a black star and an em dash.\<close>

definition STAR :: string where
  "STAR = [CHR 0xE2, CHR 0x98, CHR 0x85]"

definition EM_DASH :: string where
  "EM_DASH = [CHR 0xE2, CHR 0x80, CHR 0x94]"

subsection \<open>Data\<close>

record entry =
  slug :: string
  title :: string
  category :: string
  tags :: "string list option"
  quality_score :: "int option"
  featured :: "bool option"
  url :: string

record index_document =
  count :: int
  categories :: "string list"
  entries :: "entry list option"

text \<open>
  The \<^verbatim>\<open>arguments\<close> object of a tool call; every property may be missing. The fields
  carry the prefix \<open>arg_\<close> because \<open>slug\<close> and \<open>category\<close> are fields of an entry.
\<close>

record tool_args =
  arg_q :: "string option"
  arg_category :: "string option"
  arg_min_quality :: "int option"
  arg_featured_only :: "bool option"
  arg_slug :: "string option"
  arg_instruction_only :: "bool option"

definition no_args :: tool_args where
  "no_args = \<lparr>arg_q = None, arg_category = None, arg_min_quality = None,
     arg_featured_only = None, arg_slug = None, arg_instruction_only = None\<rparr>"

record content_item =
  c_type :: string
  c_text :: string

record tool_result =
  content :: "content_item list"
  isError :: "bool option"

datatype js_error = Error string

definition text_result :: "string \<Rightarrow> tool_result" where
  "text_result t = \<lparr>content = [\<lparr>c_type = ''text'', c_text = t\<rparr>], isError = None\<rparr>"

definition error_result :: "string \<Rightarrow> tool_result" where
  "error_result t = \<lparr>content = [\<lparr>c_type = ''text'', c_text = t\<rparr>], isError = Some True\<rparr>"

subsection \<open>Truthiness\<close>

text \<open>What \<^verbatim>\<open>if (x)\<close> tests for an optional string, number and boolean.\<close>

fun truthy_str :: "string option \<Rightarrow> bool" where
  "truthy_str None = False"
| "truthy_str (Some s) = (s \<noteq> [])"

fun truthy_num :: "int option \<Rightarrow> bool" where
  "truthy_num None = False"
| "truthy_num (Some n) = (n \<noteq> 0)"

fun truthy_bool :: "bool option \<Rightarrow> bool" where
  "truthy_bool None = False"
| "truthy_bool (Some b) = b"

text \<open>\<^verbatim>\<open>e.tags || []\<close> and \<^verbatim>\<open>e.quality_score || 0\<close>.\<close>

fun tags_or_empty :: "string list option \<Rightarrow> string list" where
  "tags_or_empty None = []"
| "tags_or_empty (Some ts) = ts"

definition score_or_zero :: "int option \<Rightarrow> int" where
  "score_or_zero s = (if truthy_num s then the s else 0)"

subsection \<open>The registry client\<close>

text \<open>
  The network is a parameter: \<open>fetch\<close> maps a URL to a rejection or to a response, whose
  body read as JSON or as text may itself fail.
\<close>

record response =
  status :: nat
  json_body :: "js_error + index_document"
  text_body :: "js_error + string"

type_synonym world = "string \<Rightarrow> js_error + response"

definition ok :: "response \<Rightarrow> bool" where
  "ok res = (200 \<le> status res \<and> status res \<le> 299)"

definition BASE_URL :: string where
  "BASE_URL = ''https://openclaw-sandy-eight.vercel.app''"

definition INDEX_URL :: string where
  "INDEX_URL = BASE_URL @ ''/registry/index.json''"

definition fetchIndex :: "world \<Rightarrow> js_error + index_document" where
  "fetchIndex fetch =
     (case fetch INDEX_URL of
        Inl e \<Rightarrow> Inl e
      | Inr res \<Rightarrow>
          if \<not> ok res then Inl (Error (''Registry unavailable: '' @ show_nat (status res)))
          else json_body res)"

text \<open>A missing slug prints as \<^verbatim>\<open>undefined\<close> in a template literal.\<close>

fun str_of :: "string option \<Rightarrow> string" where
  "str_of None = ''undefined''"
| "str_of (Some s) = s"

definition fetchFile :: "world \<Rightarrow> string option \<Rightarrow> js_error + string" where
  "fetchFile fetch slg =
     (case fetch (BASE_URL @ ''/registry/'' @ str_of slg @ ''.md'') of
        Inl e \<Rightarrow> Inl e
      | Inr res \<Rightarrow>
          if \<not> ok res
          then Inl (Error (''File not found: '' @ str_of slg @ '' ('' @ show_nat (status res) @ '')''))
          else text_body res)"

subsection \<open>The search handler\<close>

text \<open>The four predicates of the filters, lines 127 to 136.\<close>

definition matches_term :: "string \<Rightarrow> entry \<Rightarrow> bool" where
  "matches_term term e =
     (str_includes (toLowerCase (title e)) term \<or>
      list_ex (\<lambda>t. str_includes (toLowerCase t) term) (tags_or_empty (tags e)) \<or>
      str_includes (toLowerCase (slug e)) term \<or>
      str_includes (toLowerCase (category e)) term)"

definition quality_at_least :: "int \<Rightarrow> entry \<Rightarrow> bool" where
  "quality_at_least m e = (score_or_zero (quality_score e) \<ge> m)"

definition is_featured :: "entry \<Rightarrow> bool" where
  "is_featured e = truthy_bool (featured e)"

text \<open>The chain of filters, lines 123 to 136: each one runs only when its argument is truthy.\<close>

definition search_filter :: "tool_args \<Rightarrow> entry list \<Rightarrow> entry list" where
  "search_filter args results0 =
     (let results1 = (if truthy_str (arg_q args)
                      then filter (matches_term (toLowerCase (the (arg_q args)))) results0
                      else results0);
          results2 = (if truthy_str (arg_category args)
                      then filter (\<lambda>e. category e = the (arg_category args)) results1
                      else results1);
          results3 = (if truthy_num (arg_min_quality args)
                      then filter (quality_at_least (the (arg_min_quality args))) results2
                      else results2);
          results4 = (if truthy_bool (arg_featured_only args)
                      then filter is_featured results3
                      else results3)
      in results4)"

fun entries_or_empty :: "entry list option \<Rightarrow> entry list" where
  "entries_or_empty None = []"
| "entries_or_empty (Some es) = es"

fun show_score :: "int option \<Rightarrow> string" where
  "show_score None = ''undefined''"
| "show_score (Some n) = show_int n"

definition format_entry :: "entry \<Rightarrow> string" where
  "format_entry e = join [NL]
     [''**'' @ title e @ ''**'',
      ''slug: '' @ slug e,
      ''category: '' @ category e,
      ''quality: '' @ show_score (quality_score e) @ ''/100'' @
         (if is_featured e then '' '' @ STAR @ '' featured'' else ''''),
      ''tags: '' @ join '', '' (tags_or_empty (tags e)),
      ''url: '' @ url e]"

definition search_output :: "index_document \<Rightarrow> entry list \<Rightarrow> tool_result" where
  "search_output index results =
     (if length results = 0
      then text_result
        (''No results found for your query. Try broader terms or use list_categories to see what's available.''
         @ [NL, NL] @ ''Registry has '' @ show_int (count index) @ '' total files across ''
         @ show_nat (length (categories index)) @ '' categories.'')
      else text_result
        (''Found '' @ show_nat (length results) @ '' result''
         @ (if length results = 1 then '''' else ''s'') @ '':'' @ [NL, NL]
         @ join ([NL, NL] @ ''---'' @ [NL, NL]) (map format_entry results)
         @ [NL, NL] @ ''Use get_instruction with the slug to fetch the full file.''))"

definition handleSearchRegistry :: "world \<Rightarrow> tool_args \<Rightarrow> js_error + tool_result" where
  "handleSearchRegistry fetch args =
     (case fetchIndex fetch of
        Inl e \<Rightarrow> Inl e
      | Inr index \<Rightarrow>
          Inr (search_output index (search_filter args (entries_or_empty (entries index)))))"

subsection \<open>The instruction extractor\<close>

text \<open>
  The regular expression of line 44 is a list of nodes, run by a backtracking matcher in
  the order ECMAScript prescribes: a greedy star first tries to take one more character,
  a lazy star first tries to go on without one. The character classes are \<^verbatim>\<open>\s\<close>,
  \<^verbatim>\<open>\w\<close> and \<^verbatim>\<open>[\s\S]\<close>.
\<close>

datatype cclass = Space | Word | Any

fun in_class :: "cclass \<Rightarrow> char \<Rightarrow> bool" where
  "in_class Space c = (c \<in> set [CHR 0x09, CHR 0x0A, CHR 0x0B, CHR 0x0C, CHR 0x0D, CHR 0x20])"
| "in_class Word c =
     (c \<in> set ''abcdefghijklmnopqrstuvwxyzABCDEFGHIJKLMNOPQRSTUVWXYZ0123456789_'')"
| "in_class Any c = True"

datatype node = Chr char | Greedy cclass | Lazy cclass | Open_group | Close_group

text \<open>
  The state of capture group 1: not entered, entered at some input, or closed with its text.
\<close>

datatype capture = Unset | Started string | Captured string

fun run :: "node list \<Rightarrow> string \<Rightarrow> capture \<Rightarrow> capture option" where
  "run [] s cap = Some cap"
| "run (Chr c # r) [] cap = None"
| "run (Chr c # r) (x # xs) cap = (if x = c then run r xs cap else None)"
| "run (Greedy k # r) [] cap = run r [] cap"
| "run (Greedy k # r) (x # xs) cap =
     (if in_class k x
      then (case run (Greedy k # r) xs cap of
              Some res \<Rightarrow> Some res
            | None \<Rightarrow> run r (x # xs) cap)
      else run r (x # xs) cap)"
| "run (Lazy k # r) s cap =
     (case run r s cap of
        Some res \<Rightarrow> Some res
      | None \<Rightarrow>
          (case s of
             [] \<Rightarrow> None
           | x # xs \<Rightarrow> if in_class k x then run (Lazy k # r) xs cap else None))"
| "run (Open_group # r) s cap = run r s (Started s)"
| "run (Close_group # r) s cap =
     run r s (case cap of
                Started s0 \<Rightarrow> Captured (take (length s0 - length s) s0)
              | _ \<Rightarrow> cap)"

text \<open>\<^verbatim>\<open>String.prototype.match\<close> without the g flag: the first start index that matches.\<close>

fun search :: "node list \<Rightarrow> string \<Rightarrow> capture option" where
  "search re [] = run re [] Unset"
| "search re (x # xs) =
     (case run re (x # xs) Unset of
        Some res \<Rightarrow> Some res
      | None \<Rightarrow> search re xs)"

definition HEADING :: string where
  "HEADING = ''## The Instruction''"

definition FENCE :: string where
  "FENCE = ''```''"

definition INSTRUCTION_RE :: "node list" where
  "INSTRUCTION_RE =
     map Chr HEADING @ [Greedy Space, Chr NL, Lazy Any] @
     map Chr FENCE @ [Greedy Word, Chr NL, Open_group, Lazy Any, Close_group] @
     map Chr FENCE"

text \<open>\<^verbatim>\<open>markdown.split(/## The Instruction/)\<close>: cut at every occurrence, left to right.\<close>

function split_heading :: "string \<Rightarrow> string list" where
  "split_heading [] = [[]]"
| "split_heading (x # xs) =
     (if prefix HEADING (x # xs)
      then [] # split_heading (drop (length HEADING) (x # xs))
      else (case split_heading xs of
              [] \<Rightarrow> [[x]]
            | seg # segs \<Rightarrow> (x # seg) # segs))"
  by pat_completeness auto
termination
  by (relation "measure length") (auto simp: HEADING_def)

definition trim :: "string \<Rightarrow> string" where
  "trim s = rev (dropWhile (in_class Space) (rev (dropWhile (in_class Space) s)))"

text \<open>
  \<^verbatim>\<open>match[1]\<close> is \<^verbatim>\<open>undefined\<close> for a group that took no part in the match, and
  \<^verbatim>\<open>undefined.trim()\<close> throws.
\<close>

definition extractInstruction :: "string \<Rightarrow> js_error + string option" where
  "extractInstruction markdown =
     (case search INSTRUCTION_RE markdown of
        Some cap \<Rightarrow>
          (case cap of
             Captured c \<Rightarrow> Inr (Some (trim c))
           | _ \<Rightarrow> Inl (Error ''Cannot read properties of undefined (reading 'trim')''))
      | None \<Rightarrow>
          (let headerMatch = split_heading markdown
           in if length headerMatch > 1 then Inr (Some (trim (headerMatch ! 1))) else Inr None))"

subsection \<open>The fetch-one handler\<close>

definition handleGetInstruction :: "world \<Rightarrow> tool_args \<Rightarrow> js_error + tool_result" where
  "handleGetInstruction fetch args =
     (case fetchFile fetch (arg_slug args) of
        Inl e \<Rightarrow> Inl e
      | Inr markdown \<Rightarrow>
          if truthy_bool (arg_instruction_only args)
          then (case extractInstruction markdown of
                  Inl e \<Rightarrow> Inl e
                | Inr instruction \<Rightarrow>
                    if \<not> truthy_str instruction
                    then Inr (text_result
                      (''Could not extract instruction from '' @ str_of (arg_slug args)
                       @ ''. Returning full file instead:'' @ [NL, NL] @ markdown))
                    else Inr (text_result
                      (''# Instruction: '' @ str_of (arg_slug args) @ [NL, NL] @ FENCE @ [NL]
                       @ the instruction @ [NL] @ FENCE @ [NL, NL] @ ''Fetched from: ''
                       @ BASE_URL @ ''/registry/'' @ str_of (arg_slug args) @ ''.md'')))
          else Inr (text_result markdown))"

subsection \<open>The list-categories handler\<close>

text \<open>
  \<^verbatim>\<open>categoryInfo\<close> and \<^verbatim>\<open>counts\<close> are ordinary objects, so a property name is looked up
  in the object's own properties and then in \<^verbatim>\<open>Object.prototype\<close>, whose member names
  are listed here. All of them are writable data properties, which an assignment shadows
  with an own property, except the accessor \<^verbatim>\<open>__proto__\<close>: its setter ignores a number,
  and reading it gives the prototype object.
\<close>

definition PROTO_MEMBERS :: "string list" where
  "PROTO_MEMBERS =
     [''constructor'', ''__defineGetter__'', ''__defineSetter__'', ''hasOwnProperty'',
      ''__lookupGetter__'', ''__lookupSetter__'', ''isPrototypeOf'', ''propertyIsEnumerable'',
      ''toString'', ''valueOf'', ''__proto__'', ''toLocaleString'']"

definition categoryInfo :: "(string \<times> string) list" where
  "categoryInfo =
     [(''system-prompts'', ''Full agent identity and behavior definitions '' @ EM_DASH
         @ '' the complete personality and rules for an agent''),
      (''skills'', ''Scoped capability modules for specific tasks '' @ EM_DASH
         @ '' drop into any agent to add a capability''),
      (''workflows'', ''Multi-step sequential or conditional process instructions''),
      (''tool-definitions'', ''Function schemas, API patterns, and tool usage instructions''),
      (''domain-packs'', ''Deep field context '' @ EM_DASH
         @ '' industry knowledge, terminology, and domain standards''),
      (''safety-filters'', ''Output validation, content filtering, and harm detection patterns''),
      (''orchestration'', ''Multi-agent coordination and handoff protocols'')]"

text \<open>
  \<^verbatim>\<open>categoryInfo[cat] || ''\<close> inside the template literal: an own description, or the text of
  the inherited value (the prototype object, or a built-in function as V8 prints it), or
  the empty string.
\<close>

definition description :: "string \<Rightarrow> string" where
  "description cat =
     (case map_of categoryInfo cat of
        Some d \<Rightarrow> d
      | None \<Rightarrow>
          if cat = ''__proto__'' then ''[object Object]''
          else if cat \<in> set PROTO_MEMBERS
          then ''function '' @ (if cat = ''constructor'' then ''Object'' else cat)
               @ ''() { [native code] }''
          else '''')"

text \<open>
  A value stored in \<^verbatim>\<open>counts\<close> is a number or \<^verbatim>\<open>NaN\<close>; reading \<^verbatim>\<open>counts[k]\<close> gives
  \<^verbatim>\<open>undefined\<close>, an own value or an inherited object.
\<close>

datatype jsnum = Num nat | NaN

datatype property = Undefined | Own jsnum | Inherited

definition get_count :: "(string \<rightharpoonup> jsnum) \<Rightarrow> string \<Rightarrow> property" where
  "get_count counts k =
     (if k = ''__proto__'' then Inherited
      else (case counts k of
              Some v \<Rightarrow> Own v
            | None \<Rightarrow> if k \<in> set PROTO_MEMBERS then Inherited else Undefined))"

definition set_count :: "(string \<rightharpoonup> jsnum) \<Rightarrow> string \<Rightarrow> jsnum \<Rightarrow> (string \<rightharpoonup> jsnum)" where
  "set_count counts k v = (if k = ''__proto__'' then counts else counts(k \<mapsto> v))"

text \<open>\<^verbatim>\<open>x++\<close> stores the old value, converted to a number, plus one.\<close>

fun increment :: "property \<Rightarrow> jsnum" where
  "increment (Own (Num n)) = Num (n + 1)"
| "increment (Own NaN) = NaN"
| "increment Inherited = NaN"
| "increment Undefined = NaN"

text \<open>The two loops of lines 210 to 214.\<close>

definition init_counts :: "string list \<Rightarrow> (string \<rightharpoonup> jsnum)" where
  "init_counts cats = fold (\<lambda>cat counts. set_count counts cat (Num 0)) cats Map.empty"

definition count_entries :: "entry list \<Rightarrow> (string \<rightharpoonup> jsnum) \<Rightarrow> (string \<rightharpoonup> jsnum)" where
  "count_entries es counts0 =
     fold (\<lambda>e counts. case get_count counts (category e) of
                         Undefined \<Rightarrow> counts
                       | p \<Rightarrow> set_count counts (category e) (increment p)) es counts0"

text \<open>
  \<^verbatim>\<open>counts[cat] || 0\<close>: a number, with 0 for \<^verbatim>\<open>undefined\<close>, for \<^verbatim>\<open>NaN\<close> and for 0 itself,
  or the inherited object, which is truthy.
\<close>

datatype reported = Files nat | Inherited_object

fun or_zero :: "property \<Rightarrow> reported" where
  "or_zero Undefined = Files 0"
| "or_zero (Own (Num n)) = Files n"
| "or_zero (Own NaN) = Files 0"
| "or_zero Inherited = Inherited_object"

text \<open>The count each line of the listing reports, in the order of \<^verbatim>\<open>index.categories\<close>.\<close>

definition reported_counts :: "index_document \<Rightarrow> reported list" where
  "reported_counts index =
     (let counts = count_entries (entries_or_empty (entries index))
                     (init_counts (categories index))
      in map (\<lambda>cat. or_zero (get_count counts cat)) (categories index))"

text \<open>
  A reported count inside the template literal. Only the declared category
  \<^verbatim>\<open>__proto__\<close> reports an inherited object, the prototype itself; every other declared
  name has an own property after the first loop.
\<close>

fun show_reported :: "reported \<Rightarrow> string" where
  "show_reported (Files n) = show_nat n"
| "show_reported Inherited_object = ''[object Object]''"

definition category_line :: "string \<Rightarrow> reported \<Rightarrow> string" where
  "category_line cat n =
     ''**'' @ cat @ ''** ('' @ show_reported n @ '' file''
     @ (if n = Files 1 then '''' else ''s'') @ '')''
     @ [NL] @ ''  '' @ description cat"

definition handleListCategories :: "world \<Rightarrow> js_error + tool_result" where
  "handleListCategories fetch =
     (case fetchIndex fetch of
        Inl e \<Rightarrow> Inl e
      | Inr index \<Rightarrow>
          Inr (text_result
            (''OpenClaw Registry '' @ EM_DASH @ '' '' @ show_int (count index) @ '' total files''
             @ [NL, NL]
             @ join [NL, NL] (map2 category_line (categories index) (reported_counts index))
             @ [NL, NL]
             @ ''Use search_registry with category filter to browse files in any category.'')))"

subsection \<open>The list-featured handler\<close>

definition format_featured :: "entry \<Rightarrow> string" where
  "format_featured e =
     ''**'' @ title e @ ''** ['' @ category e @ '']'' @ [NL]
     @ ''slug: '' @ slug e @ '' | quality: '' @ show_score (quality_score e) @ ''/100'' @ [NL]
     @ ''tags: '' @ join '', '' (tags_or_empty (tags e))"

definition handleGetFeatured :: "world \<Rightarrow> js_error + tool_result" where
  "handleGetFeatured fetch =
     (case fetchIndex fetch of
        Inl e \<Rightarrow> Inl e
      | Inr index \<Rightarrow>
          (let featured_entries = filter is_featured (entries_or_empty (entries index))
           in Inr (text_result
             (''Featured files ('' @ show_nat (length featured_entries) @ '' total '' @ EM_DASH
              @ '' quality score 90+):'' @ [NL, NL]
              @ join [NL, NL] (map format_featured featured_entries) @ [NL, NL]
              @ ''Use get_instruction with any slug to fetch the full file.''))))"

subsection \<open>The dispatcher\<close>

record tool_request =
  name :: string
  arguments :: "tool_args option"

text \<open>\<^verbatim>\<open>args || {}\<close>\<close>

fun args_or_empty :: "tool_args option \<Rightarrow> tool_args" where
  "args_or_empty None = no_args"
| "args_or_empty (Some a) = a"

definition TOOL_NAMES :: "string list" where
  "TOOL_NAMES = [''search_registry'', ''get_instruction'', ''list_categories'', ''get_featured'']"

text \<open>The \<^verbatim>\<open>switch\<close> inside the \<^verbatim>\<open>try\<close> block, lines 259 to 266.\<close>

definition dispatch :: "world \<Rightarrow> tool_request \<Rightarrow> js_error + tool_result" where
  "dispatch fetch request =
     (if name request = ''search_registry''
        then handleSearchRegistry fetch (args_or_empty (arguments request))
      else if name request = ''get_instruction''
        then handleGetInstruction fetch (args_or_empty (arguments request))
      else if name request = ''list_categories'' then handleListCategories fetch
      else if name request = ''get_featured'' then handleGetFeatured fetch
      else Inr (error_result (''Unknown tool: '' @ name request)))"

text \<open>The request handler, lines 255 to 273: the \<^verbatim>\<open>switch\<close> under \<^verbatim>\<open>try\<close> and \<^verbatim>\<open>catch\<close>.\<close>

definition call_tool :: "world \<Rightarrow> tool_request \<Rightarrow> js_error + tool_result" where
  "call_tool fetch request =
     (case dispatch fetch request of
        Inl (Error message) \<Rightarrow> Inr (error_result (''Error: '' @ message))
      | Inr result \<Rightarrow> Inr result)"

subsection \<open>The conjunction law of the search filters\<close>

text \<open>
  The predicate the specification states for a listed entry: it satisfies the predicate of
  every argument that is supplied in the call, whatever its value.
\<close>

definition satisfies_supplied :: "tool_args \<Rightarrow> entry \<Rightarrow> bool" where
  "satisfies_supplied args e =
     ((case arg_q args of None \<Rightarrow> True | Some t \<Rightarrow> matches_term (toLowerCase t) e) \<and>
      (case arg_category args of None \<Rightarrow> True | Some c \<Rightarrow> category e = c) \<and>
      (case arg_min_quality args of None \<Rightarrow> True | Some m \<Rightarrow> quality_at_least m e) \<and>
      (case arg_featured_only args of None \<Rightarrow> True | Some b \<Rightarrow> b \<longrightarrow> is_featured e))"

subsection \<open>A small registry\<close>

definition pii_entry :: entry where
  "pii_entry = \<lparr>slug = ''pii-redaction'', title = ''PII Redaction'',
     category = ''safety-filters'', tags = Some [''safety-filters'', ''privacy''],
     quality_score = Some 80, featured = Some True,
     url = ''https://openclaw-sandy-eight.vercel.app/registry/pii-redaction.md''\<rparr>"

definition draft_entry :: entry where
  "draft_entry = \<lparr>slug = ''draft-skill'', title = ''Draft Skill'', category = ''skills'',
     tags = None, quality_score = None, featured = None,
     url = ''https://openclaw-sandy-eight.vercel.app/registry/draft-skill.md''\<rparr>"

definition weak_entry :: entry where
  "weak_entry = \<lparr>slug = ''tone-check'', title = ''Tone Check'', category = ''safety-filters'',
     tags = Some [''tone''], quality_score = Some 79, featured = Some False,
     url = ''https://openclaw-sandy-eight.vercel.app/registry/tone-check.md''\<rparr>"

definition example_index :: index_document where
  "example_index = \<lparr>count = 3, categories = [''skills'', ''safety-filters''],
     entries = Some [pii_entry, draft_entry, weak_entry]\<rparr>"

definition not_found :: response where
  "not_found = \<lparr>status = 404, json_body = Inl (Error ''Unexpected token''),
     text_body = Inr ''Not Found''\<rparr>"

definition example_fetch :: world where
  "example_fetch u =
     (if u = INDEX_URL
      then Inr \<lparr>status = 200, json_body = Inr example_index, text_body = Inr ''{}''\<rparr>
      else if u = BASE_URL @ ''/registry/plain.md''
      then Inr \<lparr>status = 200, json_body = Inl (Error ''Unexpected token''),
                text_body = Inr ''no heading here''\<rparr>
      else Inr not_found)"

definition unavailable :: response where
  "unavailable = \<lparr>status = 503, json_body = Inl (Error ''Unexpected token''),
     text_body = Inr ''Service Unavailable''\<rparr>"

definition failing_fetch :: world where
  "failing_fetch u = Inr unavailable"

definition strict_args :: tool_args where
  "strict_args = \<lparr>arg_q = Some ''SAFETY'', arg_category = Some ''safety-filters'',
     arg_min_quality = Some 80, arg_featured_only = Some True, arg_slug = None,
     arg_instruction_only = None\<rparr>"

definition quality_args :: tool_args where
  "quality_args = no_args\<lparr>arg_min_quality := Some 80\<rparr>"

definition keyword_args :: tool_args where
  "keyword_args = no_args\<lparr>arg_q := Some ''SAFETY''\<rparr>"

definition plain_args :: tool_args where
  "plain_args = no_args\<lparr>arg_slug := Some ''plain'', arg_instruction_only := Some True\<rparr>"

definition negative_entry :: entry where
  "negative_entry = \<lparr>slug = ''retired'', title = ''Retired'', category = ''skills'',
     tags = Some [], quality_score = Some (- 5), featured = Some False,
     url = ''https://openclaw-sandy-eight.vercel.app/registry/retired.md''\<rparr>"

definition empty_category_args :: tool_args where
  "empty_category_args = no_args\<lparr>arg_category := Some ''''\<rparr>"

definition zero_quality_args :: tool_args where
  "zero_quality_args = no_args\<lparr>arg_min_quality := Some 0\<rparr>"

definition draft_fetch :: world where
  "draft_fetch u =
     Inr \<lparr>status = 200,
          json_body = Inr \<lparr>count = 1, categories = [''skills''], entries = Some [draft_entry]\<rparr>,
          text_body = Inr ''{}''\<rparr>"

subsection \<open>Indexes with a repeated category, a stale count, an undeclared category and the category __proto__\<close>

definition duplicate_index :: index_document where
  "duplicate_index = \<lparr>count = 1, categories = [''skills'', ''skills''],
     entries = Some [draft_entry]\<rparr>"

definition miscounted_index :: index_document where
  "miscounted_index = \<lparr>count = 0, categories = [''skills''], entries = Some [draft_entry]\<rparr>"

definition stray_index :: index_document where
  "stray_index = \<lparr>count = 2, categories = [''skills''],
     entries = Some [draft_entry, weak_entry]\<rparr>"

definition proto_entry :: entry where
  "proto_entry = \<lparr>slug = ''odd'', title = ''Odd'', category = ''__proto__'',
     tags = None, quality_score = None, featured = None,
     url = ''https://openclaw-sandy-eight.vercel.app/registry/odd.md''\<rparr>"

definition proto_index :: index_document where
  "proto_index = \<lparr>count = 1, categories = [''__proto__''], entries = Some [proto_entry]\<rparr>"

subsection \<open>The extraction as the specification words it\<close>

text \<open>
  The text after, and the text before, the first occurrence of a pattern.
\<close>

fun text_after :: "string \<Rightarrow> string \<Rightarrow> string option" where
  "text_after pat [] = (if pat = [] then Some [] else None)"
| "text_after pat (x # xs) =
     (if prefix pat (x # xs) then Some (drop (length pat) (x # xs)) else text_after pat xs)"

fun text_before :: "string \<Rightarrow> string \<Rightarrow> string option" where
  "text_before pat [] = (if pat = [] then Some [] else None)"
| "text_before pat (x # xs) =
     (if prefix pat (x # xs) then Some [] else map_option ((#) x) (text_before pat xs))"

text \<open>
  Step 1 of the specification of the extractor, in its own words: find the heading; find
  the first fence after it; the rest of the fence's line is the optional language tag; the
  interior runs from the next line to the closing fence, and is returned trimmed. It is
  the reference the extractor of the source is compared with.
\<close>

definition spec_first_fenced_block :: "string \<Rightarrow> string option" where
  "spec_first_fenced_block doc =
     (case text_after HEADING doc of
        None \<Rightarrow> None
      | Some after_heading \<Rightarrow>
          (case text_after FENCE after_heading of
             None \<Rightarrow> None
           | Some opened \<Rightarrow>
               (case text_after [NL] opened of
                  None \<Rightarrow> None
                | Some inner \<Rightarrow>
                    (case text_before FENCE inner of
                       None \<Rightarrow> None
                     | Some interior \<Rightarrow> Some (trim interior)))))"

subsection \<open>Documents\<close>

definition fenced_doc :: string where
  "fenced_doc =
     (FENCE @ [NL] @ ''before'' @ [NL] @ FENCE @ [NL]) @ HEADING @ ''  '' @ NL #
     ([NL] @ ''Deploy this: '') @ FENCE @ ''text'' @ NL # (''do X'' @ [NL]) @ FENCE @
     ([NL] @ FENCE @ [NL] @ ''after'' @ [NL] @ FENCE)"

definition cpp_doc :: string where
  "cpp_doc = HEADING @ [NL] @ FENCE @ ''c++'' @ [NL] @ ''do X'' @ [NL] @ FENCE @ [NL]"



definition cpp_fetch :: world where
  "cpp_fetch u =
     Inr \<lparr>status = 200, json_body = Inl (Error ''Unexpected token''), text_body = Inr cpp_doc\<rparr>"

definition cpp_args :: tool_args where
  "cpp_args = no_args\<lparr>arg_slug := Some ''cpp'', arg_instruction_only := Some True\<rparr>"

section \<open>Properties\<close>

subsection \<open>Strings and the example registry\<close>

lemma str_includes_sublist: "str_includes s t \<longleftrightarrow> sublist t s"
  by (induction s) (auto simp: sublist_Cons_right)

lemma str_includes_empty: "str_includes s []"
  by (simp add: str_includes_sublist)

lemma toLowerCase_Nil: "toLowerCase [] = []"
  by (simp add: toLowerCase_def)

lemma lower_safety: "toLowerCase ''SAFETY'' = ''safety''"
  by (simp add: toLowerCase_def lower_char_def)

lemma show_503: "show_nat 503 = ''503''"
  by (simp add: show_nat.simps digit_char_def)

lemma fetchIndex_example: "fetchIndex example_fetch = Inr example_index"
  by (simp add: fetchIndex_def example_fetch_def ok_def)

lemma matches_empty_term: "matches_term [] e"
  by (simp add: matches_term_def str_includes_empty)

lemma matches_pii: "matches_term ''safety'' pii_entry"
  by (simp add: matches_term_def pii_entry_def toLowerCase_def lower_char_def)

lemma not_matches_draft: "\<not> matches_term ''safety'' draft_entry"
  by (simp add: matches_term_def draft_entry_def toLowerCase_def lower_char_def)

lemma matches_weak: "matches_term ''safety'' weak_entry"
  by (simp add: matches_term_def weak_entry_def toLowerCase_def lower_char_def)

subsection \<open>The search filters\<close>

text \<open>The chain of filters is one filter by the conjunction of the predicates it ran.\<close>

lemma search_filter_conj:
  "search_filter args es = filter (\<lambda>e.
      (truthy_str (arg_q args) \<longrightarrow> matches_term (toLowerCase (the (arg_q args))) e) \<and>
      (truthy_str (arg_category args) \<longrightarrow> category e = the (arg_category args)) \<and>
      (truthy_num (arg_min_quality args) \<longrightarrow> quality_at_least (the (arg_min_quality args)) e) \<and>
      (truthy_bool (arg_featured_only args) \<longrightarrow> is_featured e)) es"
  by (simp add: search_filter_def Let_def conj_commute conj_left_commute cong: conj_cong)

lemma search_filter_subset: "set (search_filter args es) \<subseteq> set es"
  by (simp add: search_filter_conj)

lemma search_filter_falsy:
  "search_filter (args\<lparr>arg_q := Some []\<rparr>) es = search_filter (args\<lparr>arg_q := None\<rparr>) es"
  "search_filter (args\<lparr>arg_min_quality := Some 0\<rparr>) es =
     search_filter (args\<lparr>arg_min_quality := None\<rparr>) es"
  by (simp_all add: search_filter_def)

lemma strict_results:
  "search_filter strict_args [pii_entry, draft_entry, weak_entry] = [pii_entry]"
  by (simp add: search_filter_def strict_args_def lower_safety matches_pii not_matches_draft
      matches_weak)
     (simp add: pii_entry_def weak_entry_def is_featured_def quality_at_least_def
      score_or_zero_def)

lemma sublist_inner: "sublist x y \<Longrightarrow> sublist x (a @ y @ b)"
  by (metis sublist_appendI sublist_order.order_trans)

lemma sublist_join: "x \<in> set xs \<Longrightarrow> sublist x (join sep xs)"
proof (induction sep xs rule: join.induct)
  case (1 sep)
  then show ?case by simp
next
  case (2 sep y)
  then show ?case by simp
next
  case (3 sep y z zs)
  show ?case
  proof (cases "x = y")
    case True
    then show ?thesis by simp
  next
    case False
    with 3 have "sublist x (join sep (z # zs))" by simp
    from sublist_inner[OF this, of "y @ sep" "[]"] show ?thesis by simp
  qed
qed

lemma matches_term_sublist:
  "matches_term t e \<longleftrightarrow>
     (sublist t (toLowerCase (title e)) \<or>
      sublist t (toLowerCase (slug e)) \<or>
      sublist t (toLowerCase (category e)) \<or>
      (\<exists>x \<in> set (case tags e of None \<Rightarrow> [] | Some ts \<Rightarrow> ts). sublist t (toLowerCase x)))"
  by (cases "tags e") (auto simp: matches_term_def str_includes_sublist list_ex_iff)

lemma quality_at_least_case:
  "quality_at_least m e \<longleftrightarrow> m \<le> (case quality_score e of None \<Rightarrow> 0 | Some s \<Rightarrow> s)"
  by (cases "quality_score e") (auto simp: quality_at_least_def score_or_zero_def)

lemma is_featured_iff: "is_featured e \<longleftrightarrow> featured e = Some True"
  by (cases "featured e") (auto simp: is_featured_def)

lemma format_entry_block:
  "format_entry e =
     ''**'' @ title e @ ''**'' @ [NL] @ ''slug: '' @ slug e @ [NL] @ ''category: '' @ category e
     @ [NL] @ ''quality: '' @ show_score (quality_score e) @ ''/100''
     @ (if featured e = Some True then '' '' @ STAR @ '' featured'' else [])
     @ [NL] @ ''tags: '' @ join '', '' (case tags e of None \<Rightarrow> [] | Some ts \<Rightarrow> ts)
     @ [NL] @ ''url: '' @ url e"
  by (cases "tags e") (simp_all add: format_entry_def is_featured_iff)

text \<open>
  C1 (as amended). For every index and every combination of the arguments \<open>q\<close>,
  \<open>category\<close>, \<open>min_quality\<close> and \<open>featured_only\<close>, the entries the search handler lists
  are a subset of \<open>index.entries\<close>, and they are exactly the entries of the index, in its
  order, that satisfy the predicate of each argument supplied with a truthy value: the
  substring match for a non-empty \<open>q\<close>, equality for a non-empty \<open>category\<close>, the threshold
  for a non-zero \<open>min_quality\<close>, the flag for \<open>featured_only\<close> true. An argument that is
  absent or falsy has no filter. The filters compose conjunctively, and the text of the
  result holds the block of every surviving entry, with their number and no limit.
\<close>

theorem search_conjunction_law:
  assumes "fetchIndex fetch = Inr index"
    and "es = (case entries index of None \<Rightarrow> [] | Some xs \<Rightarrow> xs)"
    and "results = search_filter args es"
  shows "set results \<subseteq> set es \<and>
         results = filter (\<lambda>e.
           (\<forall>t. arg_q args = Some t \<and> t \<noteq> [] \<longrightarrow>
              sublist (toLowerCase t) (toLowerCase (title e)) \<or>
              sublist (toLowerCase t) (toLowerCase (slug e)) \<or>
              sublist (toLowerCase t) (toLowerCase (category e)) \<or>
              (\<exists>x \<in> set (case tags e of None \<Rightarrow> [] | Some ts \<Rightarrow> ts).
                 sublist (toLowerCase t) (toLowerCase x))) \<and>
           (\<forall>c. arg_category args = Some c \<and> c \<noteq> [] \<longrightarrow> category e = c) \<and>
           (\<forall>m. arg_min_quality args = Some m \<and> m \<noteq> 0 \<longrightarrow>
              m \<le> (case quality_score e of None \<Rightarrow> 0 | Some s \<Rightarrow> s)) \<and>
           (arg_featured_only args = Some True \<longrightarrow> featured e = Some True)) es \<and>
         (\<exists>listing. handleSearchRegistry fetch args =
                  Inr \<lparr>content = [\<lparr>c_type = ''text'', c_text = listing\<rparr>], isError = None\<rparr> \<and>
            listing =
              (if results = []
               then ''No results found for your query. Try broader terms or use list_categories to see what's available.''
                    @ [NL, NL] @ ''Registry has '' @ show_int (count index)
                    @ '' total files across '' @ show_nat (length (categories index))
                    @ '' categories.''
               else ''Found '' @ show_nat (length results) @ '' result''
                    @ (if length results = 1 then [] else ''s'') @ '':'' @ [NL, NL]
                    @ join ([NL, NL] @ ''---'' @ [NL, NL])
                        (map (\<lambda>e. ''**'' @ title e @ ''**'' @ [NL] @ ''slug: '' @ slug e @ [NL]
                                @ ''category: '' @ category e @ [NL]
                                @ ''quality: '' @ show_score (quality_score e) @ ''/100''
                                @ (if featured e = Some True then '' '' @ STAR @ '' featured''
                                   else [])
                                @ [NL] @ ''tags: ''
                                @ join '', '' (case tags e of None \<Rightarrow> [] | Some ts \<Rightarrow> ts)
                                @ [NL] @ ''url: '' @ url e) results)
                    @ [NL, NL] @ ''Use get_instruction with the slug to fetch the full file.'') \<and>
            (\<forall>e \<in> set results.
               sublist (''**'' @ title e @ ''**'' @ [NL] @ ''slug: '' @ slug e @ [NL]) listing))"
proof -
  let ?P = "\<lambda>e.
           (\<forall>t. arg_q args = Some t \<and> t \<noteq> [] \<longrightarrow>
              sublist (toLowerCase t) (toLowerCase (title e)) \<or>
              sublist (toLowerCase t) (toLowerCase (slug e)) \<or>
              sublist (toLowerCase t) (toLowerCase (category e)) \<or>
              (\<exists>x \<in> set (case tags e of None \<Rightarrow> [] | Some ts \<Rightarrow> ts).
                 sublist (toLowerCase t) (toLowerCase x))) \<and>
           (\<forall>c. arg_category args = Some c \<and> c \<noteq> [] \<longrightarrow> category e = c) \<and>
           (\<forall>m. arg_min_quality args = Some m \<and> m \<noteq> 0 \<longrightarrow>
              m \<le> (case quality_score e of None \<Rightarrow> 0 | Some s \<Rightarrow> s)) \<and>
           (arg_featured_only args = Some True \<longrightarrow> featured e = Some True)"
  have q: "(truthy_str (arg_q args) \<longrightarrow> matches_term (toLowerCase (the (arg_q args))) e) \<longleftrightarrow>
           (\<forall>t. arg_q args = Some t \<and> t \<noteq> [] \<longrightarrow>
              sublist (toLowerCase t) (toLowerCase (title e)) \<or>
              sublist (toLowerCase t) (toLowerCase (slug e)) \<or>
              sublist (toLowerCase t) (toLowerCase (category e)) \<or>
              (\<exists>x \<in> set (case tags e of None \<Rightarrow> [] | Some ts \<Rightarrow> ts).
                 sublist (toLowerCase t) (toLowerCase x)))" for e
    by (cases "arg_q args") (simp_all add: matches_term_sublist)
  have c: "(truthy_str (arg_category args) \<longrightarrow> category e = the (arg_category args)) \<longleftrightarrow>
           (\<forall>c. arg_category args = Some c \<and> c \<noteq> [] \<longrightarrow> category e = c)" for e
    by (cases "arg_category args") simp_all
  have m: "(truthy_num (arg_min_quality args) \<longrightarrow>
              quality_at_least (the (arg_min_quality args)) e) \<longleftrightarrow>
           (\<forall>m. arg_min_quality args = Some m \<and> m \<noteq> 0 \<longrightarrow>
              m \<le> (case quality_score e of None \<Rightarrow> 0 | Some s \<Rightarrow> s))" for e
    by (cases "arg_min_quality args") (simp_all add: quality_at_least_case)
  have f: "(truthy_bool (arg_featured_only args) \<longrightarrow> is_featured e) \<longleftrightarrow>
           (arg_featured_only args = Some True \<longrightarrow> featured e = Some True)" for e
    by (cases "arg_featured_only args") (simp_all add: is_featured_iff)
  have eq: "results = filter ?P es"
    unfolding assms(3) search_filter_conj q c m f ..
  have sub: "set results \<subseteq> set es"
    unfolding assms(3) by (rule search_filter_subset)
  define listing where "listing =
              (if results = []
               then ''No results found for your query. Try broader terms or use list_categories to see what's available.''
                    @ [NL, NL] @ ''Registry has '' @ show_int (count index)
                    @ '' total files across '' @ show_nat (length (categories index))
                    @ '' categories.''
               else ''Found '' @ show_nat (length results) @ '' result''
                    @ (if length results = 1 then [] else ''s'') @ '':'' @ [NL, NL]
                    @ join ([NL, NL] @ ''---'' @ [NL, NL]) (map format_entry results)
                    @ [NL, NL] @ ''Use get_instruction with the slug to fetch the full file.'')"
  have es: "entries_or_empty (entries index) = es"
    unfolding assms(2) by (cases "entries index") simp_all
  have h: "handleSearchRegistry fetch args =
             Inr \<lparr>content = [\<lparr>c_type = ''text'', c_text = listing\<rparr>], isError = None\<rparr>"
    using assms(1)
    by (simp add: handleSearchRegistry_def es assms(3)[symmetric] search_output_def
        text_result_def listing_def)
  have blocks: "sublist (''**'' @ title e @ ''**'' @ [NL] @ ''slug: '' @ slug e @ [NL]) listing"
    if "e \<in> set results" for e
  proof -
    from that have ne: "results \<noteq> []" by auto
    have "sublist (''**'' @ title e @ ''**'' @ [NL] @ ''slug: '' @ slug e @ [NL])
            (format_entry e)"
      unfolding format_entry_block by (rule prefix_imp_sublist) simp
    moreover from that have "sublist (format_entry e)
        (join ([NL, NL] @ ''---'' @ [NL, NL]) (map format_entry results))"
      by (intro sublist_join) simp
    ultimately have "sublist (''**'' @ title e @ ''**'' @ [NL] @ ''slug: '' @ slug e @ [NL])
        (join ([NL, NL] @ ''---'' @ [NL, NL]) (map format_entry results))"
      by (rule sublist_order.order_trans)
    from sublist_inner[OF this,
        of "''Found '' @ show_nat (length results) @ '' result''
              @ (if length results = 1 then [] else ''s'') @ '':'' @ [NL, NL]"
           "[NL, NL] @ ''Use get_instruction with the slug to fetch the full file.''"]
    show ?thesis unfolding listing_def using ne by simp
  qed
  have t: "listing =
              (if results = []
               then ''No results found for your query. Try broader terms or use list_categories to see what's available.''
                    @ [NL, NL] @ ''Registry has '' @ show_int (count index)
                    @ '' total files across '' @ show_nat (length (categories index))
                    @ '' categories.''
               else ''Found '' @ show_nat (length results) @ '' result''
                    @ (if length results = 1 then [] else ''s'') @ '':'' @ [NL, NL]
                    @ join ([NL, NL] @ ''---'' @ [NL, NL])
                        (map (\<lambda>e. ''**'' @ title e @ ''**'' @ [NL] @ ''slug: '' @ slug e @ [NL]
                                @ ''category: '' @ category e @ [NL]
                                @ ''quality: '' @ show_score (quality_score e) @ ''/100''
                                @ (if featured e = Some True then '' '' @ STAR @ '' featured''
                                   else [])
                                @ [NL] @ ''tags: ''
                                @ join '', '' (case tags e of None \<Rightarrow> [] | Some ts \<Rightarrow> ts)
                                @ [NL] @ ''url: '' @ url e) results)
                    @ [NL, NL] @ ''Use get_instruction with the slug to fetch the full file.'')"
    unfolding listing_def format_entry_block[abs_def] ..
  from sub eq h t blocks show ?thesis by blast
qed

theorem search_conjunction_law_witness:
  "fetchIndex example_fetch = Inr example_index \<and>
   search_filter strict_args [pii_entry, draft_entry, weak_entry] = [pii_entry] \<and>
   handleSearchRegistry example_fetch strict_args =
     Inr \<lparr>content = [\<lparr>c_type = ''text'',
             c_text = ''Found 1 result:'' @ [NL, NL] @ ''**PII Redaction**'' @ [NL]
               @ ''slug: pii-redaction'' @ [NL] @ ''category: safety-filters'' @ [NL]
               @ ''quality: 80/100 '' @ STAR @ '' featured'' @ [NL]
               @ ''tags: safety-filters, privacy'' @ [NL]
               @ ''url: https://openclaw-sandy-eight.vercel.app/registry/pii-redaction.md''
               @ [NL, NL] @ ''Use get_instruction with the slug to fetch the full file.''\<rparr>],
          isError = None\<rparr>"
proof -
  have h1: "fetchIndex example_fetch = Inr example_index"
    by (rule fetchIndex_example)
  have h2: "[pii_entry, draft_entry, weak_entry] =
      (case entries example_index of None \<Rightarrow> [] | Some xs \<Rightarrow> xs)"
    by (simp add: example_index_def)
  have h3: "[pii_entry] = search_filter strict_args [pii_entry, draft_entry, weak_entry]"
    by (simp add: strict_results)
  have n: "show_nat (Suc 0) = ''1''" "show_int 80 = ''80''"
    by (simp_all add: show_int_def show_nat.simps digit_char_def)
  from search_conjunction_law[OF h1 h2 h3] h1 h3 show ?thesis
    by (auto simp: n pii_entry_def)
qed

text \<open>
  C1 as stated fails: with \<open>category\<close> supplied as the empty string the handler lists an
  entry of the category \<open>skills\<close>, and with \<open>min_quality\<close> supplied as 0 it keeps an entry
  whose score is negative; neither entry satisfies the predicate of the supplied argument.
\<close>

theorem search_conjunction_law_counterexample:
  "arg_category empty_category_args = Some '''' \<and>
   category draft_entry \<noteq> '''' \<and>
   \<not> satisfies_supplied empty_category_args draft_entry \<and>
   handleSearchRegistry draft_fetch empty_category_args =
     Inr \<lparr>content = [\<lparr>c_type = ''text'',
             c_text = ''Found 1 result:'' @ [NL, NL] @ ''**Draft Skill**'' @ [NL]
               @ ''slug: draft-skill'' @ [NL] @ ''category: skills'' @ [NL]
               @ ''quality: undefined/100'' @ [NL] @ ''tags: '' @ [NL]
               @ ''url: https://openclaw-sandy-eight.vercel.app/registry/draft-skill.md''
               @ [NL, NL] @ ''Use get_instruction with the slug to fetch the full file.''\<rparr>],
          isError = None\<rparr> \<and>
   arg_min_quality zero_quality_args = Some 0 \<and>
   \<not> quality_at_least 0 negative_entry \<and>
   \<not> satisfies_supplied zero_quality_args negative_entry \<and>
   search_filter zero_quality_args [negative_entry] = [negative_entry]"
proof -
  have a: "arg_category empty_category_args = Some ''''"
    "arg_min_quality zero_quality_args = Some 0"
    by (simp_all add: empty_category_args_def zero_quality_args_def)
  have b: "category draft_entry \<noteq> ''''"
    by (simp add: draft_entry_def)
  have c: "\<not> satisfies_supplied empty_category_args draft_entry"
    by (simp add: satisfies_supplied_def empty_category_args_def no_args_def draft_entry_def)
  have d: "search_filter empty_category_args [draft_entry] = [draft_entry]"
    by (simp add: search_filter_def empty_category_args_def no_args_def)
  have n: "show_nat (Suc 0) = ''1''"
    by (simp add: show_nat.simps digit_char_def)
  have e: "handleSearchRegistry draft_fetch empty_category_args =
      Inr (search_output \<lparr>count = 1, categories = [''skills''], entries = Some [draft_entry]\<rparr>
             [draft_entry])"
    by (simp add: handleSearchRegistry_def fetchIndex_def draft_fetch_def ok_def d)
  have f: "search_output \<lparr>count = 1, categories = [''skills''], entries = Some [draft_entry]\<rparr>
             [draft_entry] =
     \<lparr>content = [\<lparr>c_type = ''text'',
             c_text = ''Found 1 result:'' @ [NL, NL] @ ''**Draft Skill**'' @ [NL]
               @ ''slug: draft-skill'' @ [NL] @ ''category: skills'' @ [NL]
               @ ''quality: undefined/100'' @ [NL] @ ''tags: '' @ [NL]
               @ ''url: https://openclaw-sandy-eight.vercel.app/registry/draft-skill.md''
               @ [NL, NL] @ ''Use get_instruction with the slug to fetch the full file.''\<rparr>],
          isError = None\<rparr>"
    by (simp add: search_output_def text_result_def format_entry_def n draft_entry_def
        is_featured_def)
  have g: "\<not> quality_at_least 0 negative_entry"
    by (simp add: quality_at_least_def score_or_zero_def negative_entry_def)
  have h: "\<not> satisfies_supplied zero_quality_args negative_entry"
    using g by (simp add: satisfies_supplied_def zero_quality_args_def no_args_def)
  have i: "search_filter zero_quality_args [negative_entry] = [negative_entry]"
    by (simp add: search_filter_def zero_quality_args_def no_args_def)
  from a b c e f g h i show ?thesis by simp
qed

text \<open>
  C6. With \<open>min_quality = 80\<close> the search filter keeps an entry exactly when it passes the
  other filters and its \<open>quality_score\<close> is present and at least 80: an entry without a
  score, whose score counts as 0, or with a score below 80 is excluded, and a score of
  exactly 80 is included.
\<close>

theorem min_quality_80_inclusive:
  assumes "arg_min_quality args = Some 80"
  shows "score_or_zero None = 0 \<and>
         (e \<in> set (search_filter args es) \<longleftrightarrow>
            e \<in> set (search_filter (args\<lparr>arg_min_quality := None\<rparr>) es) \<and>
            (\<exists>s. quality_score e = Some s \<and> 80 \<le> s))"
  using assms
  by (cases "quality_score e")
     (auto simp: search_filter_conj quality_at_least_def score_or_zero_def)

theorem min_quality_80_inclusive_witness:
  "arg_min_quality quality_args = Some 80 \<and>
   pii_entry \<in> set (search_filter quality_args [pii_entry, draft_entry, weak_entry]) \<and>
   draft_entry \<notin> set (search_filter quality_args [pii_entry, draft_entry, weak_entry]) \<and>
   weak_entry \<notin> set (search_filter quality_args [pii_entry, draft_entry, weak_entry])"
proof -
  have h: "arg_min_quality quality_args = Some 80"
    by (simp add: quality_args_def)
  have n: "search_filter (quality_args\<lparr>arg_min_quality := None\<rparr>) es = es" for es
    by (simp add: search_filter_def quality_args_def no_args_def)
  from min_quality_80_inclusive[OF h, of pii_entry "[pii_entry, draft_entry, weak_entry]"]
       min_quality_80_inclusive[OF h, of draft_entry "[pii_entry, draft_entry, weak_entry]"]
       min_quality_80_inclusive[OF h, of weak_entry "[pii_entry, draft_entry, weak_entry]"]
       h
  show ?thesis
    by (simp add: n) (simp add: pii_entry_def draft_entry_def weak_entry_def)
qed

text \<open>
  C7. For every query string \<open>q\<close> the keyword filter keeps an entry exactly when it passes
  the other filters and the lowercased \<open>q\<close> is a substring of the lowercased title, slug
  or category, or of some lowercased tag. The query \<open>SAFETY\<close> matches every entry that
  carries the tag \<open>safety-filters\<close>.
\<close>

theorem keyword_filter_case_insensitive:
  "(arg_q args = Some qs \<longrightarrow>
     (e \<in> set (search_filter args es) \<longleftrightarrow>
        e \<in> set (search_filter (args\<lparr>arg_q := None\<rparr>) es) \<and>
        (sublist (toLowerCase qs) (toLowerCase (title e)) \<or>
         sublist (toLowerCase qs) (toLowerCase (slug e)) \<or>
         sublist (toLowerCase qs) (toLowerCase (category e)) \<or>
         (\<exists>t \<in> set (tags_or_empty (tags e)). sublist (toLowerCase qs) (toLowerCase t))))) \<and>
   (''safety-filters'' \<in> set (tags_or_empty (tags e)) \<longrightarrow>
      matches_term (toLowerCase ''SAFETY'') e)"
proof -
  have a: "matches_term t e \<longleftrightarrow>
        (sublist t (toLowerCase (title e)) \<or>
         sublist t (toLowerCase (slug e)) \<or>
         sublist t (toLowerCase (category e)) \<or>
         (\<exists>x \<in> set (tags_or_empty (tags e)). sublist t (toLowerCase x)))" for t
    by (auto simp: matches_term_def str_includes_sublist list_ex_iff)
  have d: "sublist ''safety'' (toLowerCase ''safety-filters'')"
    by (simp add: toLowerCase_def lower_char_def str_includes_sublist [symmetric])
  have first: "arg_q args = Some qs \<longrightarrow>
     (e \<in> set (search_filter args es) \<longleftrightarrow>
        e \<in> set (search_filter (args\<lparr>arg_q := None\<rparr>) es) \<and> matches_term (toLowerCase qs) e)"
    by (cases "qs = []") (auto simp: search_filter_conj matches_empty_term toLowerCase_Nil)
  have second: "''safety-filters'' \<in> set (tags_or_empty (tags e)) \<longrightarrow>
      matches_term (toLowerCase ''SAFETY'') e"
    unfolding a lower_safety using d by blast
  from first second show ?thesis unfolding a by blast
qed

theorem keyword_filter_case_insensitive_witness:
  "arg_q keyword_args = Some ''SAFETY'' \<and>
   ''safety-filters'' \<in> set (tags_or_empty (tags pii_entry)) \<and>
   matches_term (toLowerCase ''SAFETY'') pii_entry \<and>
   pii_entry \<in> set (search_filter keyword_args [pii_entry, draft_entry, weak_entry])"
proof -
  have h: "arg_q keyword_args = Some ''SAFETY''"
    by (simp add: keyword_args_def)
  have t: "''safety-filters'' \<in> set (tags_or_empty (tags pii_entry))"
    by (simp add: pii_entry_def)
  have n: "search_filter (keyword_args\<lparr>arg_q := None\<rparr>) es = es" for es
    by (simp add: search_filter_def keyword_args_def no_args_def)
  have s: "sublist (toLowerCase ''SAFETY'') (toLowerCase (title pii_entry)) \<or>
         sublist (toLowerCase ''SAFETY'') (toLowerCase (slug pii_entry)) \<or>
         sublist (toLowerCase ''SAFETY'') (toLowerCase (category pii_entry)) \<or>
         (\<exists>t \<in> set (tags_or_empty (tags pii_entry)).
            sublist (toLowerCase ''SAFETY'') (toLowerCase t))"
    using matches_pii
    by (simp add: matches_term_def str_includes_sublist list_ex_iff lower_safety) blast
  from keyword_filter_case_insensitive
         [of keyword_args "''SAFETY''" pii_entry "[pii_entry, draft_entry, weak_entry]"]
       h t s
  show ?thesis
    by (simp add: n)
qed

text \<open>
  C10. Calling the search handler with \<open>q\<close> equal to the empty string, or with
  \<open>min_quality\<close> equal to 0, gives exactly the result of the call with that argument
  absent, whatever the index and the other arguments are: the filter of a falsy argument
  is skipped.
\<close>

theorem falsy_arguments_unobservable:
  "handleSearchRegistry fetch (args\<lparr>arg_q := Some []\<rparr>) =
     handleSearchRegistry fetch (args\<lparr>arg_q := None\<rparr>) \<and>
   handleSearchRegistry fetch (args\<lparr>arg_min_quality := Some 0\<rparr>) =
     handleSearchRegistry fetch (args\<lparr>arg_min_quality := None\<rparr>)"
  by (simp add: handleSearchRegistry_def search_filter_falsy split: sum.split)

theorem falsy_arguments_unobservable_witness:
  "handleSearchRegistry example_fetch (no_args\<lparr>arg_q := Some []\<rparr>) =
     handleSearchRegistry example_fetch (no_args\<lparr>arg_q := None\<rparr>) \<and>
   handleSearchRegistry example_fetch (no_args\<lparr>arg_min_quality := Some 0\<rparr>) =
     handleSearchRegistry example_fetch (no_args\<lparr>arg_min_quality := None\<rparr>)"
  by (rule falsy_arguments_unobservable)

subsection \<open>The dispatcher\<close>

lemma call_tool_total: "\<exists>result. call_tool fetch request = Inr result"
  by (simp add: call_tool_def split: sum.split js_error.split)

lemma call_tool_catch:
  "dispatch fetch request = Inl (Error message) \<Longrightarrow>
   call_tool fetch request = Inr (error_result (''Error: '' @ message))"
  by (simp add: call_tool_def)

lemma call_tool_pass:
  "dispatch fetch request = Inr r \<Longrightarrow> call_tool fetch request = Inr r"
  by (simp add: call_tool_def)

text \<open>
  C2. The request handler never throws: it returns a result for every request. A name
  outside the four tool names gives the result whose text is \<open>Unknown tool: \<close> followed
  by the requested name, with \<open>isError\<close> true. An exception that the handler of the
  requested tool raises, a failure of the registry client included, is caught and gives
  the result whose text is \<open>Error: \<close> followed by the message, with \<open>isError\<close> true.
\<close>

theorem dispatcher_never_throws:
  "(\<exists>result. call_tool fetch request = Inr result) \<and>
   (name request \<notin> set TOOL_NAMES \<longrightarrow>
      call_tool fetch request =
        Inr \<lparr>content = [\<lparr>c_type = ''text'', c_text = ''Unknown tool: '' @ name request\<rparr>],
             isError = Some True\<rparr>) \<and>
   (\<forall>message.
      (name request = ''search_registry'' \<and>
         handleSearchRegistry fetch (args_or_empty (arguments request)) = Inl (Error message)) \<or>
      (name request = ''get_instruction'' \<and>
         handleGetInstruction fetch (args_or_empty (arguments request)) = Inl (Error message)) \<or>
      (name request = ''list_categories'' \<and> handleListCategories fetch = Inl (Error message)) \<or>
      (name request = ''get_featured'' \<and> handleGetFeatured fetch = Inl (Error message))
      \<longrightarrow> call_tool fetch request =
            Inr \<lparr>content = [\<lparr>c_type = ''text'', c_text = ''Error: '' @ message\<rparr>],
                 isError = Some True\<rparr>)"
proof -
  have unknown: "name request \<notin> set TOOL_NAMES \<longrightarrow>
      call_tool fetch request = Inr (error_result (''Unknown tool: '' @ name request))"
    by (auto simp: TOOL_NAMES_def dispatch_def intro: call_tool_pass)
  have caught: "call_tool fetch request = Inr (error_result (''Error: '' @ message))"
    if "(name request = ''search_registry'' \<and>
         handleSearchRegistry fetch (args_or_empty (arguments request)) = Inl (Error message)) \<or>
      (name request = ''get_instruction'' \<and>
         handleGetInstruction fetch (args_or_empty (arguments request)) = Inl (Error message)) \<or>
      (name request = ''list_categories'' \<and> handleListCategories fetch = Inl (Error message)) \<or>
      (name request = ''get_featured'' \<and> handleGetFeatured fetch = Inl (Error message))"
    for message
  proof -
    from that have "dispatch fetch request = Inl (Error message)"
      by (auto simp: dispatch_def)
    then show ?thesis by (rule call_tool_catch)
  qed
  from call_tool_total unknown caught show ?thesis
    unfolding error_result_def by blast
qed

theorem dispatcher_never_throws_witness:
  "''frobnicate'' \<notin> set TOOL_NAMES \<and>
   call_tool example_fetch \<lparr>name = ''frobnicate'', arguments = None\<rparr> =
     Inr \<lparr>content = [\<lparr>c_type = ''text'', c_text = ''Unknown tool: frobnicate''\<rparr>],
          isError = Some True\<rparr> \<and>
   handleGetFeatured failing_fetch = Inl (Error ''Registry unavailable: 503'') \<and>
   call_tool failing_fetch \<lparr>name = ''get_featured'', arguments = None\<rparr> =
     Inr \<lparr>content = [\<lparr>c_type = ''text'', c_text = ''Error: Registry unavailable: 503''\<rparr>],
          isError = Some True\<rparr>"
proof -
  have u: "''frobnicate'' \<notin> set TOOL_NAMES"
    by (simp add: TOOL_NAMES_def)
  have f: "handleGetFeatured failing_fetch = Inl (Error ''Registry unavailable: 503'')"
    by (simp add: handleGetFeatured_def fetchIndex_def failing_fetch_def unavailable_def ok_def
        show_503)
  from dispatcher_never_throws[of example_fetch "\<lparr>name = ''frobnicate'', arguments = None\<rparr>"]
       dispatcher_never_throws[of failing_fetch "\<lparr>name = ''get_featured'', arguments = None\<rparr>"]
       u f
  show ?thesis by simp
qed

text \<open>
  C8. When the index endpoint answers with a status outside 200 to 299, each handler that
  reads the index (search, list-categories, list-featured) fails with the message
  \<open>Registry unavailable: \<close> followed by the status in decimal, and the request handler
  turns it into a result with \<open>isError\<close> true whose text ends with that status.
\<close>

theorem index_failure_reported:
  assumes "fetch INDEX_URL = Inr res" and "\<not> ok res"
  shows "handleSearchRegistry fetch args =
           Inl (Error (''Registry unavailable: '' @ show_nat (status res))) \<and>
         handleListCategories fetch =
           Inl (Error (''Registry unavailable: '' @ show_nat (status res))) \<and>
         handleGetFeatured fetch =
           Inl (Error (''Registry unavailable: '' @ show_nat (status res))) \<and>
         (name request \<in> {''search_registry'', ''list_categories'', ''get_featured''} \<longrightarrow>
            call_tool fetch request =
              Inr \<lparr>content = [\<lparr>c_type = ''text'',
                      c_text = ''Error: Registry unavailable: '' @ show_nat (status res)\<rparr>],
                   isError = Some True\<rparr>)"
proof -
  have f: "fetchIndex fetch = Inl (Error (''Registry unavailable: '' @ show_nat (status res)))"
    using assms by (simp add: fetchIndex_def)
  have s: "handleSearchRegistry fetch a =
           Inl (Error (''Registry unavailable: '' @ show_nat (status res)))" for a
    by (simp add: handleSearchRegistry_def f)
  have l: "handleListCategories fetch =
           Inl (Error (''Registry unavailable: '' @ show_nat (status res)))"
    by (simp add: handleListCategories_def f)
  have g: "handleGetFeatured fetch =
           Inl (Error (''Registry unavailable: '' @ show_nat (status res)))"
    by (simp add: handleGetFeatured_def f)
  have d: "dispatch fetch request =
             Inl (Error (''Registry unavailable: '' @ show_nat (status res)))"
    if "name request \<in> {''search_registry'', ''list_categories'', ''get_featured''}"
    using that by (auto simp: dispatch_def s l g)
  have c: "name request \<in> {''search_registry'', ''list_categories'', ''get_featured''} \<longrightarrow>
            call_tool fetch request =
              Inr (error_result (''Error: Registry unavailable: '' @ show_nat (status res)))"
    using call_tool_catch[OF d] by simp
  from s l g c show ?thesis unfolding error_result_def by blast
qed

theorem index_failure_reported_witness:
  "failing_fetch INDEX_URL = Inr unavailable \<and> \<not> ok unavailable \<and>
   handleSearchRegistry failing_fetch no_args = Inl (Error ''Registry unavailable: 503'') \<and>
   call_tool failing_fetch \<lparr>name = ''list_categories'', arguments = None\<rparr> =
     Inr \<lparr>content = [\<lparr>c_type = ''text'', c_text = ''Error: Registry unavailable: 503''\<rparr>],
          isError = Some True\<rparr>"
proof -
  have h1: "failing_fetch INDEX_URL = Inr unavailable"
    by (simp add: failing_fetch_def)
  have h2: "\<not> ok unavailable"
    by (simp add: ok_def unavailable_def)
  have s: "status unavailable = 503"
    by (simp add: unavailable_def)
  from index_failure_reported[of failing_fetch unavailable no_args
         "\<lparr>name = ''list_categories'', arguments = None\<rparr>", OF h1 h2] h1 h2
  show ?thesis
    by (simp add: s show_503)
qed

subsection \<open>The fetch-one handler\<close>

lemma extract_plain: "extractInstruction ''no heading here'' = Inr None"
  by (simp add: extractInstruction_def INSTRUCTION_RE_def HEADING_def FENCE_def)

text \<open>
  C5. For every slug whose document is fetched, the fetch-one handler with
  \<open>instruction_only\<close> true and the extraction returning absent gives a result in which
  \<open>isError\<close> is not set and whose text is the notice that the extraction failed, followed
  by the whole raw document; the request handler returns that same result, not an error.
\<close>

theorem extraction_failure_returns_full_document:
  assumes "arg_slug args = Some sl"
    and "fetchFile fetch (Some sl) = Inr markdown"
    and "arg_instruction_only args = Some True"
    and "extractInstruction markdown = Inr None"
  shows "handleGetInstruction fetch args =
           Inr \<lparr>content = [\<lparr>c_type = ''text'',
                   c_text = ''Could not extract instruction from '' @ sl
                     @ ''. Returning full file instead:'' @ [NL, NL] @ markdown\<rparr>],
                isError = None\<rparr> \<and>
         (name request = ''get_instruction'' \<and> arguments request = Some args \<longrightarrow>
            call_tool fetch request = handleGetInstruction fetch args)"
proof -
  have h: "handleGetInstruction fetch args =
      Inr (text_result (''Could not extract instruction from '' @ sl
                     @ ''. Returning full file instead:'' @ [NL, NL] @ markdown))"
    using assms by (simp add: handleGetInstruction_def)
  have "call_tool fetch request = handleGetInstruction fetch args"
    if "name request = ''get_instruction''" and "arguments request = Some args"
  proof -
    from that have "dispatch fetch request = handleGetInstruction fetch args"
      by (simp add: dispatch_def)
    with h show ?thesis by (simp add: call_tool_pass)
  qed
  with h show ?thesis unfolding text_result_def by blast
qed

theorem extraction_failure_returns_full_document_witness:
  "arg_slug plain_args = Some ''plain'' \<and>
   fetchFile example_fetch (Some ''plain'') = Inr ''no heading here'' \<and>
   arg_instruction_only plain_args = Some True \<and>
   extractInstruction ''no heading here'' = Inr None \<and>
   call_tool example_fetch \<lparr>name = ''get_instruction'', arguments = Some plain_args\<rparr> =
     Inr \<lparr>content = [\<lparr>c_type = ''text'',
             c_text = ''Could not extract instruction from plain. Returning full file instead:''
                      @ [NL, NL] @ ''no heading here''\<rparr>],
          isError = None\<rparr>"
proof -
  have h1: "arg_slug plain_args = Some ''plain''"
    by (simp add: plain_args_def)
  have h2: "fetchFile example_fetch (Some ''plain'') = Inr ''no heading here''"
    by (simp add: fetchFile_def example_fetch_def BASE_URL_def INDEX_URL_def ok_def)
  have h3: "arg_instruction_only plain_args = Some True"
    by (simp add: plain_args_def)
  note h4 = extract_plain
  from extraction_failure_returns_full_document
         [of plain_args "''plain''" example_fetch "''no heading here''"
             "\<lparr>name = ''get_instruction'', arguments = Some plain_args\<rparr>", OF h1 h2 h3 h4]
       h1 h2 h3 h4
  show ?thesis by simp
qed

subsection \<open>The list-categories handler\<close>

lemma get_set_count:
  "get_count (set_count m k v) c = (if c = k \<and> k \<noteq> ''__proto__'' then Own v else get_count m c)"
  by (simp add: get_count_def set_count_def)

lemma fold_init_counts:
  "c \<noteq> ''__proto__'' \<Longrightarrow>
   get_count (fold (\<lambda>cat counts. set_count counts cat (Num 0)) cats m) c =
     (if c \<in> set cats then Own (Num 0) else get_count m c)"
  by (induction cats arbitrary: m) (auto simp: get_set_count)

lemma init_counts_declared:
  "c \<noteq> ''__proto__'' \<Longrightarrow> c \<in> set cats \<Longrightarrow> get_count (init_counts cats) c = Own (Num 0)"
  by (simp add: init_counts_def fold_init_counts)

lemma count_entries_declared:
  "c \<noteq> ''__proto__'' \<Longrightarrow> get_count m c = Own (Num n) \<Longrightarrow>
   get_count (count_entries es m) c = Own (Num (n + length (filter (\<lambda>e. category e = c) es)))"
  unfolding count_entries_def
proof (induction es arbitrary: m n)
  case Nil
  then show ?case by simp
next
  case (Cons e es)
  let ?m' = "case get_count m (category e) of
               Undefined \<Rightarrow> m
             | p \<Rightarrow> set_count m (category e) (increment p)"
  show ?case
  proof (cases "category e = c")
    case True
    with Cons.prems have "get_count ?m' c = Own (Num (n + 1))"
      by (simp add: get_set_count)
    from Cons.IH[OF Cons.prems(1) this] True show ?thesis by simp
  next
    case False
    with Cons.prems have "get_count ?m' c = Own (Num n)"
      by (simp add: get_set_count split: property.split)
    from Cons.IH[OF Cons.prems(1) this] False show ?thesis by simp
  qed
qed

lemma reported_counts_eq:
  assumes "''__proto__'' \<notin> set (categories index)"
  shows "reported_counts index =
     map (\<lambda>c. Files (length (filter (\<lambda>e. category e = c) (entries_or_empty (entries index)))))
       (categories index)"
proof -
  have "or_zero (get_count (count_entries es (init_counts (categories index))) c) =
        Files (length (filter (\<lambda>e. category e = c) es))"
    if "c \<in> set (categories index)" for c es
  proof -
    from that assms have p: "c \<noteq> ''__proto__''" by auto
    from count_entries_declared[OF p init_counts_declared[OF p that], of es]
    show ?thesis by simp
  qed
  then show ?thesis by (simp add: reported_counts_def)
qed

lemma reported_proto: "reported_counts proto_index = [Inherited_object]"
  by (simp add: reported_counts_def proto_index_def get_count_def)

lemma length_filter_disjoint:
  "(\<And>x. x \<in> set xs \<Longrightarrow> \<not> (P x \<and> Q x)) \<Longrightarrow>
   length (filter P xs) + length (filter Q xs) = length (filter (\<lambda>x. P x \<or> Q x) xs)"
  by (induction xs) auto

lemma sum_counts_distinct:
  "distinct cs \<Longrightarrow>
   sum_list (map (\<lambda>c. length (filter (\<lambda>e. f e = c) es)) cs) =
     length (filter (\<lambda>e. f e \<in> set cs) es)"
proof (induction cs)
  case Nil
  then show ?case by simp
next
  case (Cons c cs)
  then have "length (filter (\<lambda>e. f e = c) es) + length (filter (\<lambda>e. f e \<in> set cs) es) =
      length (filter (\<lambda>e. f e = c \<or> f e \<in> set cs) es)"
    by (intro length_filter_disjoint) auto
  with Cons show ?case by simp
qed

lemma map2_map_same: "map2 f xs (map g xs) = map (\<lambda>x. f x (g x)) xs"
  by (induction xs) auto

text \<open>
  C9 (as amended). For every index whose declared categories are pairwise distinct and do
  not include the name \<open>__proto__\<close>, every count that list-categories reports is a number,
  namely the number of entries of that category, and the counts sum to the number of
  entries whose category is declared, so entries with an undeclared category are left out
  of the counts; the sum is at most the number of entries and equals it when every entry's
  category is declared; and it is at most \<open>index.count\<close> whenever that field is the number
  of entries. The listing of the handler prints exactly these counts, one line per
  declared category, in the declared order.
\<close>

theorem category_counts_bounded:
  assumes "distinct (categories index)"
    and "''__proto__'' \<notin> set (categories index)"
    and "es = entries_or_empty (entries index)"
  shows "\<exists>ns. ns = map (\<lambda>c. length (filter (\<lambda>e. category e = c) es)) (categories index) \<and>
           reported_counts index = map Files ns \<and>
           sum_list ns = length (filter (\<lambda>e. category e \<in> set (categories index)) es) \<and>
           sum_list ns \<le> length es \<and>
           ((\<forall>e \<in> set es. category e \<in> set (categories index)) \<longrightarrow> sum_list ns = length es) \<and>
           (count index = int (length es) \<longrightarrow> int (sum_list ns) \<le> count index) \<and>
           (fetchIndex fetch = Inr index \<longrightarrow>
              handleListCategories fetch =
                Inr \<lparr>content = [\<lparr>c_type = ''text'',
                        c_text = ''OpenClaw Registry '' @ EM_DASH @ '' '' @ show_int (count index)
                          @ '' total files'' @ [NL, NL]
                          @ join [NL, NL]
                              (map (\<lambda>c. ''**'' @ c @ ''** (''
                                      @ show_nat (length (filter (\<lambda>e. category e = c) es))
                                      @ '' file''
                                      @ (if length (filter (\<lambda>e. category e = c) es) = 1
                                         then [] else ''s'')
                                      @ '')'' @ [NL] @ ''  '' @ description c)
                                 (categories index))
                          @ [NL, NL]
                          @ ''Use search_registry with category filter to browse files in any category.''\<rparr>],
                     isError = None\<rparr>)"
proof -
  define ns where "ns = map (\<lambda>c. length (filter (\<lambda>e. category e = c) es)) (categories index)"
  have rep: "reported_counts index = map Files ns"
    unfolding ns_def assms(3) by (simp add: reported_counts_eq[OF assms(2)] comp_def)
  have eq: "sum_list ns = length (filter (\<lambda>e. category e \<in> set (categories index)) es)"
    unfolding ns_def using assms(1) by (rule sum_counts_distinct)
  have le: "sum_list ns \<le> length es"
    unfolding eq by (rule length_filter_le)
  have all: "(\<forall>e \<in> set es. category e \<in> set (categories index)) \<longrightarrow> sum_list ns = length es"
    unfolding eq by (simp add: filter_id_conv)
  have lines: "map2 category_line (categories index) (reported_counts index) =
      map (\<lambda>c. ''**'' @ c @ ''** (''
                  @ show_nat (length (filter (\<lambda>e. category e = c) es))
                  @ '' file''
                  @ (if length (filter (\<lambda>e. category e = c) es) = 1 then [] else ''s'')
                  @ '')'' @ [NL] @ ''  '' @ description c)
        (categories index)"
    unfolding rep ns_def by (simp add: map2_map_same category_line_def)
  have out: "fetchIndex fetch = Inr index \<longrightarrow>
      handleListCategories fetch =
        Inr (text_result (''OpenClaw Registry '' @ EM_DASH @ '' '' @ show_int (count index)
               @ '' total files'' @ [NL, NL]
               @ join [NL, NL]
                   (map (\<lambda>c. ''**'' @ c @ ''** (''
                           @ show_nat (length (filter (\<lambda>e. category e = c) es))
                           @ '' file''
                           @ (if length (filter (\<lambda>e. category e = c) es) = 1
                              then [] else ''s'')
                           @ '')'' @ [NL] @ ''  '' @ description c)
                      (categories index))
               @ [NL, NL]
               @ ''Use search_registry with category filter to browse files in any category.''))"
    by (simp add: handleListCategories_def lines)
  from ns_def rep eq le all out show ?thesis
    unfolding text_result_def by simp
qed

theorem category_counts_bounded_witness:
  "distinct (categories example_index) \<and>
   ''__proto__'' \<notin> set (categories example_index) \<and>
   reported_counts example_index = [Files 1, Files 2] \<and>
   distinct (categories stray_index) \<and>
   ''__proto__'' \<notin> set (categories stray_index) \<and>
   reported_counts stray_index = [Files 1]"
proof -
  have h1: "distinct (categories example_index)"
    by (simp add: example_index_def)
  have h2: "''__proto__'' \<notin> set (categories example_index)"
    by (simp add: example_index_def)
  have h3: "[pii_entry, draft_entry, weak_entry] = entries_or_empty (entries example_index)"
    by (simp add: example_index_def)
  have h4: "distinct (categories stray_index)"
    by (simp add: stray_index_def)
  have h5: "''__proto__'' \<notin> set (categories stray_index)"
    by (simp add: stray_index_def)
  have h6: "[draft_entry, weak_entry] = entries_or_empty (entries stray_index)"
    by (simp add: stray_index_def)
  have c1: "categories example_index = [''skills'', ''safety-filters'']"
    by (simp add: example_index_def)
  have c2: "categories stray_index = [''skills'']"
    by (simp add: stray_index_def)
  have e: "category pii_entry = ''safety-filters''" "category draft_entry = ''skills''"
    "category weak_entry = ''safety-filters''"
    by (simp_all add: pii_entry_def draft_entry_def weak_entry_def)
  from category_counts_bounded[OF h1 h2 h3] category_counts_bounded[OF h4 h5 h6] h1 h2 h4 h5
  show ?thesis
    by (simp add: c1 c2 e)
qed

text \<open>
  C9 as stated fails: with a category declared twice each of its two lines reports the same
  entry, so the counts sum to 2 for an index of one entry; the handler never compares
  \<open>index.count\<close> with the entries it counts; and for the declared category \<open>__proto__\<close>
  the reported count is no number at all.
\<close>

theorem category_counts_counterexample:
  "reported_counts duplicate_index = map Files [1, 1] \<and>
   \<not> int (sum_list [1, 1]) \<le> count duplicate_index \<and>
   reported_counts miscounted_index = map Files [1] \<and>
   \<not> int (sum_list [1]) \<le> count miscounted_index \<and>
   reported_counts proto_index = [Inherited_object]"
  by (simp add: reported_counts_def count_entries_def init_counts_def get_count_def
      set_count_def PROTO_MEMBERS_def duplicate_index_def miscounted_index_def
      proto_index_def draft_entry_def proto_entry_def)

subsection \<open>The backtracking matcher\<close>

lemma run_lits:
  "run (map Chr l @ r) s cap = (if prefix l s then run r (drop (length l) s) cap else None)"
proof (induction l arbitrary: s)
  case Nil
  then show ?case by simp
next
  case (Cons c l)
  then show ?case by (cases s) auto
qed

lemma run_lazy_any_skip:
  "(\<And>k. k < length p \<Longrightarrow> run r (drop k (p @ s)) cap = None) \<Longrightarrow>
   run (Lazy Any # r) (p @ s) cap = run (Lazy Any # r) s cap"
proof (induction p)
  case Nil
  then show ?case by simp
next
  case (Cons x p)
  from Cons.prems[of 0] have h0: "run r (x # p @ s) cap = None" by simp
  have "run r (drop k (p @ s)) cap = None" if "k < length p" for k
    using Cons.prems[of "Suc k"] that by simp
  then have "run (Lazy Any # r) (p @ s) cap = run (Lazy Any # r) s cap"
    by (rule Cons.IH)
  with h0 show ?case by simp
qed

lemma run_lazy_hit: "run r s cap = Some res \<Longrightarrow> run (Lazy k # r) s cap = Some res"
  by simp


lemma NL_not_word: "\<not> in_class Word NL"
  by (simp add: NL_def)

lemma run_greedy_word_nl:
  "\<forall>c\<in>set tag. in_class Word c \<Longrightarrow>
   run (Greedy Word # Chr NL # r) (tag @ NL # rest) cap = run r rest cap"
proof (induction tag)
  case Nil
  then show ?case using NL_not_word by simp
next
  case (Cons t tag)
  then have w: "in_class Word t" and ih: "run (Greedy Word # Chr NL # r) (tag @ NL # rest) cap = run r rest cap"
    by simp_all
  from w NL_not_word have "t \<noteq> NL" by auto
  with w ih show ?case by (simp split: option.splits del: in_class.simps)
qed

lemma run_greedy_sound:
  "run (Greedy k # r) s cap = Some res \<Longrightarrow>
   \<exists>n\<le>length s. (\<forall>c\<in>set (take n s). in_class k c) \<and> run r (drop n s) cap = Some res"
proof (induction s)
  case Nil
  then show ?case by simp
next
  case (Cons x xs)
  show ?case
  proof (cases "in_class k x \<and> run (Greedy k # r) xs cap \<noteq> None")
    case True
    with Cons.prems have "run (Greedy k # r) xs cap = Some res" by auto
    from Cons.IH[OF this] obtain n where n: "n \<le> length xs" "\<forall>c\<in>set (take n xs). in_class k c"
      "run r (drop n xs) cap = Some res" by blast
    with True have "Suc n \<le> length (x # xs) \<and> (\<forall>c\<in>set (take (Suc n) (x # xs)). in_class k c) \<and>
        run r (drop (Suc n) (x # xs)) cap = Some res" by simp
    then show ?thesis by blast
  next
    case False
    with Cons.prems have "run r (x # xs) cap = Some res"
      by (auto split: if_splits option.splits)
    then have "0 \<le> length (x # xs) \<and> (\<forall>c\<in>set (take 0 (x # xs)). in_class k c) \<and>
        run r (drop 0 (x # xs)) cap = Some res" by simp
    then show ?thesis by blast
  qed
qed

lemma run_greedy_complete:
  "\<forall>c\<in>set p. in_class k c \<Longrightarrow> run r s cap \<noteq> None \<Longrightarrow> run (Greedy k # r) (p @ s) cap \<noteq> None"
proof (induction p)
  case Nil
  then show ?case by (cases s) (auto split: option.splits)
next
  case (Cons x p)
  then show ?case by (auto split: option.splits)
qed

lemma run_lits_end: "run (map Chr l) s cap = (if prefix l s then Some cap else None)"
  using run_lits[of l "[]" s cap] by simp

lemma occurrence_in_take:
  assumes "prefix pat (drop k s)" and "k + length pat \<le> n"
  shows "sublist pat (take n s)"
proof (cases "k \<le> length s")
  case True
  from assms(1) obtain z where z: "drop k s = pat @ z" by (auto simp: prefix_def)
  define a where "a = take k s"
  have s: "s = a @ pat @ z" unfolding a_def using z by (metis append_take_drop_id)
  have la: "length a = k" unfolding a_def using True by simp
  have "take n s = a @ pat @ take (n - (k + length pat)) z"
    unfolding s using la assms(2) by simp
  then show ?thesis by (simp add: sublist_def) blast
next
  case False
  with assms(1) have "pat = []" by simp
  then show ?thesis by simp
qed

lemma no_early_occurrence:
  assumes "\<not> str_includes (pre @ butlast pat) pat" and "k < length pre"
  shows "\<not> prefix pat (drop k (pre @ pat @ rest))"
proof
  assume p: "prefix pat (drop k (pre @ pat @ rest))"
  from assms(2) have "k + length pat \<le> length pre + (length pat - 1)"
    using p by (cases pat) auto
  from occurrence_in_take[OF p this]
  have "sublist pat (take (length pre + (length pat - 1)) (pre @ pat @ rest))" .
  moreover have "take (length pre + (length pat - 1)) (pre @ pat @ rest) = pre @ butlast pat"
    by (simp add: butlast_conv_take)
  ultimately show False using assms(1) by (simp add: str_includes_sublist)
qed

lemma run_capture_group:
  assumes "\<not> str_includes (body @ butlast FENCE) FENCE"
  shows "run (Open_group # Lazy Any # Close_group # map Chr FENCE) (body @ FENCE @ rest) cap =
         Some (Captured body)"
proof -
  let ?s = "body @ FENCE @ rest"
  have miss: "run (Close_group # map Chr FENCE) (drop k ?s) (Started ?s) = None"
    if "k < length body" for k
    using no_early_occurrence[OF assms that, of rest] by (simp add: run_lits_end)
  have "run (Lazy Any # Close_group # map Chr FENCE) ?s (Started ?s) =
        run (Lazy Any # Close_group # map Chr FENCE) (FENCE @ rest) (Started ?s)"
    using miss by (rule run_lazy_any_skip)
  also have "\<dots> = Some (Captured body)"
    by (rule run_lazy_hit) (simp add: run_lits_end)
  finally show ?thesis by simp
qed

lemma run_fence_block:
  assumes "\<forall>c\<in>set tag. in_class Word c"
    and "\<not> str_includes (body @ butlast FENCE) FENCE"
  shows "run (map Chr FENCE @ Greedy Word # Chr NL # Open_group # Lazy Any # Close_group
              # map Chr FENCE)
           (FENCE @ tag @ NL # body @ FENCE @ rest) cap = Some (Captured body)"
  using assms by (simp add: run_lits run_greedy_word_nl run_capture_group del: run.simps)

lemma run_skip_to_fence:
  assumes "\<not> str_includes (g @ butlast FENCE) FENCE"
    and "\<forall>c\<in>set tag. in_class Word c"
    and "\<not> str_includes (body @ butlast FENCE) FENCE"
  shows "run (Lazy Any # map Chr FENCE @ Greedy Word # Chr NL # Open_group # Lazy Any
              # Close_group # map Chr FENCE)
           (g @ FENCE @ tag @ NL # body @ FENCE @ rest) cap = Some (Captured body)"
proof -
  let ?T = "map Chr FENCE @ Greedy Word # Chr NL # Open_group # Lazy Any # Close_group
              # map Chr FENCE"
  let ?X = "FENCE @ tag @ NL # body @ FENCE @ rest"
  have miss: "run ?T (drop k (g @ ?X)) cap = None" if "k < length g" for k
    using no_early_occurrence[OF assms(1) that, of "tag @ NL # body @ FENCE @ rest"]
    by (simp add: run_lits del: run.simps)
  have "run (Lazy Any # ?T) (g @ ?X) cap = run (Lazy Any # ?T) ?X cap"
    using miss by (rule run_lazy_any_skip)
  also have "\<dots> = Some (Captured body)"
    by (rule run_lazy_hit) (rule run_fence_block[OF assms(2,3)])
  finally show ?thesis .
qed

lemma str_includes_drop:
  "\<not> str_includes (g @ t) pat \<Longrightarrow> \<not> str_includes (drop m g @ t) pat"
proof -
  have "sublist pat (drop m g @ t) \<Longrightarrow> sublist pat (g @ t)"
  proof -
    assume "sublist pat (drop m g @ t)"
    then obtain ps ss where "drop m g @ t = ps @ pat @ ss" by (auto simp: sublist_def)
    then have "g @ t = (take m g @ ps) @ pat @ ss"
      by (metis append_assoc append_take_drop_id)
    then show ?thesis unfolding sublist_def by blast
  qed
  then show "\<not> str_includes (g @ t) pat \<Longrightarrow> \<not> str_includes (drop m g @ t) pat"
    by (auto simp: str_includes_sublist)
qed

lemma take_all_class_bound:
  assumes "\<forall>c\<in>set (take n (g @ f # xs)). P c" and "\<not> P f"
  shows "n \<le> length g"
proof (rule ccontr)
  assume "\<not> n \<le> length g"
  then have "f \<in> set (take n (g @ f # xs))"
    by (cases "n - length g") auto
  with assms show False by blast
qed

lemma run_after_heading_unique:
  assumes "\<not> str_includes (g @ butlast FENCE) FENCE"
    and "\<forall>c\<in>set tag. in_class Word c"
    and "\<not> str_includes (body @ butlast FENCE) FENCE"
    and "run (Greedy Space # Chr NL # Lazy Any # map Chr FENCE @ Greedy Word # Chr NL
              # Open_group # Lazy Any # Close_group # map Chr FENCE)
           (g @ FENCE @ tag @ NL # body @ FENCE @ rest) cap = Some res"
  shows "res = Captured body"
proof -
  let ?T = "map Chr FENCE @ Greedy Word # Chr NL # Open_group # Lazy Any # Close_group
              # map Chr FENCE"
  let ?Y = "tag @ NL # body @ FENCE @ rest"
  have X: "FENCE @ ?Y = CHR 0x60 # CHR 0x60 # CHR 0x60 # ?Y"
    by (simp add: FENCE_def)
  from run_greedy_sound[OF assms(4)] obtain n where
    n: "\<forall>c\<in>set (take n (g @ FENCE @ ?Y)). in_class Space c"
    and r: "run (Chr NL # Lazy Any # ?T) (drop n (g @ FENCE @ ?Y)) cap = Some res"
    by blast
  have ng: "n \<le> length g"
    using n unfolding X by (rule take_all_class_bound) simp
  have "n \<noteq> length g"
  proof
    assume "n = length g"
    with r show False unfolding X by (simp add: NL_def)
  qed
  with ng have lt: "n < length g" by simp
  then obtain y g' where d: "drop n g = y # g'"
    by (cases "drop n g") auto
  then have g': "g' = drop (Suc n) g"
    by (metis drop_Suc tl_drop list.sel(3))
  from r ng d have "run (Lazy Any # ?T) (g' @ FENCE @ ?Y) cap = Some res"
    by (simp split: if_splits)
  moreover have "\<not> str_includes (g' @ butlast FENCE) FENCE"
    unfolding g' using assms(1) by (rule str_includes_drop)
  ultimately show ?thesis
    using run_skip_to_fence[OF _ assms(2,3), of g' rest cap] by simp
qed

lemma no_fence_in_space:
  assumes "\<forall>c\<in>set ws. in_class Space c"
    and "\<not> str_includes (mid @ butlast FENCE) FENCE"
  shows "\<not> str_includes ((ws @ NL # mid) @ butlast FENCE) FENCE"
  using assms
proof (induction ws)
  case Nil
  then show ?case by (simp add: FENCE_def NL_def)
next
  case (Cons c ws)
  then have "c \<noteq> CHR 0x60" by auto
  with Cons show ?case by (simp add: FENCE_def)
qed

lemma run_after_heading:
  assumes "\<forall>c\<in>set ws. in_class Space c"
    and "\<not> str_includes (mid @ butlast FENCE) FENCE"
    and "\<forall>c\<in>set tag. in_class Word c"
    and "\<not> str_includes (body @ butlast FENCE) FENCE"
  shows "run (Greedy Space # Chr NL # Lazy Any # map Chr FENCE @ Greedy Word # Chr NL
              # Open_group # Lazy Any # Close_group # map Chr FENCE)
           (ws @ NL # mid @ FENCE @ tag @ NL # body @ FENCE @ rest) cap = Some (Captured body)"
proof -
  let ?R = "Chr NL # Lazy Any # map Chr FENCE @ Greedy Word # Chr NL
              # Open_group # Lazy Any # Close_group # map Chr FENCE"
  let ?X = "FENCE @ tag @ NL # body @ FENCE @ rest"
  have "run ?R (NL # mid @ ?X) cap = Some (Captured body)"
    using run_skip_to_fence[OF assms(2,3,4), of rest cap] by simp
  then have "run ?R (NL # mid @ ?X) cap \<noteq> None" by simp
  with assms(1) have "run (Greedy Space # ?R) (ws @ NL # mid @ ?X) cap \<noteq> None"
    by (rule run_greedy_complete)
  then obtain res where res: "run (Greedy Space # ?R) (ws @ NL # mid @ ?X) cap = Some res"
    by blast
  have "res = Captured body"
  proof (rule run_after_heading_unique[OF no_fence_in_space[OF assms(1,2)] assms(3,4)])
    show "run (Greedy Space # ?R) ((ws @ NL # mid) @ ?X) cap = Some res"
      using res by simp
  qed
  with res show ?thesis by simp
qed

lemma run_instruction_re:
  assumes "\<forall>c\<in>set ws. in_class Space c"
    and "\<not> str_includes (mid @ butlast FENCE) FENCE"
    and "\<forall>c\<in>set tag. in_class Word c"
    and "\<not> str_includes (body @ butlast FENCE) FENCE"
  shows "run INSTRUCTION_RE
           (HEADING @ ws @ NL # mid @ FENCE @ tag @ NL # body @ FENCE @ rest) cap =
         Some (Captured body)"
  unfolding INSTRUCTION_RE_def
  using run_after_heading[OF assms, of rest cap]
  by (simp add: run_lits del: run.simps)

lemma search_skip:
  "(\<And>k. k < length pre \<Longrightarrow> run re (drop k (pre @ s)) Unset = None) \<Longrightarrow>
   search re (pre @ s) = search re s"
proof (induction pre)
  case Nil
  then show ?case by simp
next
  case (Cons x pre)
  from Cons.prems[of 0] have h0: "run re (x # pre @ s) Unset = None" by simp
  have "run re (drop k (pre @ s)) Unset = None" if "k < length pre" for k
    using Cons.prems[of "Suc k"] that by simp
  then have "search re (pre @ s) = search re s" by (rule Cons.IH)
  with h0 show ?case by simp
qed

lemma search_hit: "run re s Unset = Some res \<Longrightarrow> search re s = Some res"
  by (cases s) auto

lemma run_needs_heading:
  "\<not> prefix HEADING s \<Longrightarrow> run INSTRUCTION_RE s cap = None"
  unfolding INSTRUCTION_RE_def by (simp add: run_lits del: run.simps)

subsection \<open>The first fenced block and the fallback\<close>

lemma text_after_first:
  assumes "pat \<noteq> []" and "\<not> str_includes (pre @ butlast pat) pat"
  shows "text_after pat (pre @ pat @ rest) = Some rest"
  using assms(2)
proof (induction pre)
  case Nil
  from assms(1) obtain x xs where "pat @ rest = x # xs" by (cases pat) auto
  then have "text_after pat (pat @ rest) = Some (drop (length pat) (pat @ rest))"
    by (metis prefixI text_after.simps(2))
  then show ?case by simp
next
  case (Cons y pre)
  from no_early_occurrence[OF Cons.prems, of 0 rest]
  have "\<not> prefix pat (y # pre @ pat @ rest)" by simp
  moreover from Cons.prems have "\<not> str_includes (pre @ butlast pat) pat" by simp
  ultimately show ?case using Cons.IH by simp
qed

lemma text_before_first:
  assumes "pat \<noteq> []" and "\<not> str_includes (pre @ butlast pat) pat"
  shows "text_before pat (pre @ pat @ rest) = Some pre"
  using assms(2)
proof (induction pre)
  case Nil
  from assms(1) obtain x xs where "pat @ rest = x # xs" by (cases pat) auto
  then have "text_before pat (pat @ rest) = Some []"
    by (metis prefixI text_before.simps(2))
  then show ?case by simp
next
  case (Cons y pre)
  from no_early_occurrence[OF Cons.prems, of 0 rest]
  have "\<not> prefix pat (y # pre @ pat @ rest)" by simp
  moreover from Cons.prems have "\<not> str_includes (pre @ butlast pat) pat" by simp
  ultimately show ?case using Cons.IH by simp
qed

lemma no_newline_in_tag:
  "\<forall>c\<in>set tag. in_class Word c \<Longrightarrow> \<not> str_includes (tag @ butlast [NL]) [NL]"
proof (induction tag)
  case Nil
  then show ?case by simp
next
  case (Cons t tag)
  then have "t \<noteq> NL" using NL_not_word by auto
  with Cons show ?case by simp
qed

lemma spec_first_fenced_block_eq:
  assumes "\<not> str_includes (pre @ butlast HEADING) HEADING"
    and "\<forall>c\<in>set ws. in_class Space c"
    and "\<not> str_includes (mid @ butlast FENCE) FENCE"
    and "\<forall>c\<in>set tag. in_class Word c"
    and "\<not> str_includes (body @ butlast FENCE) FENCE"
  shows "spec_first_fenced_block
           (pre @ HEADING @ ws @ NL # mid @ FENCE @ tag @ NL # body @ FENCE @ rest) =
         Some (trim body)"
proof -
  have h: "HEADING \<noteq> []" and f: "FENCE \<noteq> []"
    by (simp_all add: HEADING_def FENCE_def)
  have 1: "text_after HEADING
             (pre @ HEADING @ ws @ NL # mid @ FENCE @ tag @ NL # body @ FENCE @ rest) =
           Some ((ws @ NL # mid) @ FENCE @ tag @ NL # body @ FENCE @ rest)"
    using text_after_first[OF h assms(1)] by simp
  have 2: "text_after FENCE ((ws @ NL # mid) @ FENCE @ tag @ NL # body @ FENCE @ rest) =
           Some (tag @ [NL] @ body @ FENCE @ rest)"
    using text_after_first[OF f no_fence_in_space[OF assms(2,3)]] by simp
  have 3: "text_after [NL] (tag @ [NL] @ body @ FENCE @ rest) = Some (body @ FENCE @ rest)"
    by (rule text_after_first[OF _ no_newline_in_tag[OF assms(4)]]) simp
  have 4: "text_before FENCE (body @ FENCE @ rest) = Some body"
    by (rule text_before_first[OF f assms(5)])
  show ?thesis
    unfolding spec_first_fenced_block_def by (simp only: 1 2 3 4 option.case)
qed








text \<open>
  Where the extractor does find the block. Take a document in which the first occurrence
  of the heading \<open>## The Instruction\<close> is followed by white space and a line feed, and in
  which the first fence after that opens a block whose opening line is the fence, a language
  tag of word characters (it may be empty) and a line feed. Then extract returns the
  trimmed text between that line and the next fence, which is the trimmed interior of the
  first fenced block after the heading as the specification words it. Fenced blocks before
  the heading play no part.
\<close>

lemma extract_word_tag_block:
  assumes "doc = pre @ HEADING @ ws @ NL # mid @ FENCE @ tag @ NL # body @ FENCE @ rest"
    and "\<not> str_includes (pre @ butlast HEADING) HEADING"
    and "\<forall>c\<in>set ws. in_class Space c"
    and "\<not> str_includes (mid @ butlast FENCE) FENCE"
    and "\<forall>c\<in>set tag. in_class Word c"
    and "\<not> str_includes (body @ butlast FENCE) FENCE"
  shows "extractInstruction doc = Inr (Some (trim body)) \<and>
         spec_first_fenced_block doc = Some (trim body)"
proof -
  let ?s = "HEADING @ ws @ NL # mid @ FENCE @ tag @ NL # body @ FENCE @ rest"
  have miss: "run INSTRUCTION_RE (drop k (pre @ ?s)) Unset = None" if "k < length pre" for k
    by (rule run_needs_heading) (rule no_early_occurrence[OF assms(2) that])
  have "search INSTRUCTION_RE (pre @ ?s) = search INSTRUCTION_RE ?s"
    using miss by (rule search_skip)
  also have "\<dots> = Some (Captured body)"
    by (rule search_hit) (rule run_instruction_re[OF assms(3-6)])
  finally have "extractInstruction doc = Inr (Some (trim body))"
    unfolding assms(1) by (simp add: extractInstruction_def)
  moreover have "spec_first_fenced_block doc = Some (trim body)"
    unfolding assms(1) by (rule spec_first_fenced_block_eq[OF assms(2-6)])
  ultimately show ?thesis by simp
qed

lemma extract_word_tag_block_example:
  "fenced_doc =
     (FENCE @ [NL] @ ''before'' @ [NL] @ FENCE @ [NL]) @ HEADING @ ''  '' @ NL #
     ([NL] @ ''Deploy this: '') @ FENCE @ ''text'' @ NL # (''do X'' @ [NL]) @ FENCE @
     ([NL] @ FENCE @ [NL] @ ''after'' @ [NL] @ FENCE) \<and>
   \<not> str_includes ((FENCE @ [NL] @ ''before'' @ [NL] @ FENCE @ [NL]) @ butlast HEADING) HEADING \<and>
   list_all (in_class Space) ''  '' \<and>
   \<not> str_includes (([NL] @ ''Deploy this: '') @ butlast FENCE) FENCE \<and>
   list_all (in_class Word) ''text'' \<and>
   \<not> str_includes ((''do X'' @ [NL]) @ butlast FENCE) FENCE \<and>
   extractInstruction fenced_doc = Inr (Some ''do X'') \<and>
   spec_first_fenced_block fenced_doc = Some ''do X''"
proof -
  have h1: "fenced_doc =
     (FENCE @ [NL] @ ''before'' @ [NL] @ FENCE @ [NL]) @ HEADING @ ''  '' @ NL #
     ([NL] @ ''Deploy this: '') @ FENCE @ ''text'' @ NL # (''do X'' @ [NL]) @ FENCE @
     ([NL] @ FENCE @ [NL] @ ''after'' @ [NL] @ FENCE)"
    by (simp add: fenced_doc_def)
  have h2: "\<not> str_includes ((FENCE @ [NL] @ ''before'' @ [NL] @ FENCE @ [NL]) @ butlast HEADING)
              HEADING"
    by (simp add: HEADING_def FENCE_def NL_def)
  have h3: "\<forall>c\<in>set ''  ''. in_class Space c"
    by simp
  have h4: "\<not> str_includes (([NL] @ ''Deploy this: '') @ butlast FENCE) FENCE"
    by (simp add: FENCE_def NL_def)
  have h5: "\<forall>c\<in>set ''text''. in_class Word c"
    by simp
  have h6: "\<not> str_includes ((''do X'' @ [NL]) @ butlast FENCE) FENCE"
    by (simp add: FENCE_def NL_def)
  have t: "trim (''do X'' @ [NL]) = ''do X''"
    by (simp add: trim_def NL_def)
  from extract_word_tag_block[OF h1 h2 h3 h4 h5 h6] h1 h2 h3 h4 h5 h6
  show ?thesis by (simp only: t) simp
qed

text \<open>
  C3. The claim is that for every document in which a fenced block follows the heading,
  extract returns the trimmed interior of the first such block, so that a block with the
  text \<open>do X\<close> gives exactly \<open>do X\<close>. The extractor of the source breaks it: in the
  document below the heading is followed by a fenced block with the language tag \<open>c++\<close>
  and the text \<open>do X\<close>, which is what the specification's wording finds, but the regular
  expression admits only word characters between the fence and the line feed, finds no
  block, and extract returns everything after the heading, the fences included; the
  fetch-one handler then wraps that text in a second pair of fences.
\<close>

theorem extract_misses_tagged_block:
  "cpp_doc = HEADING @ [NL] @ FENCE @ ''c++'' @ [NL] @ ''do X'' @ [NL] @ FENCE @ [NL] \<and>
   spec_first_fenced_block cpp_doc = Some ''do X'' \<and>
   search INSTRUCTION_RE cpp_doc = None \<and>
   extractInstruction cpp_doc = Inr (Some (FENCE @ ''c++'' @ [NL] @ ''do X'' @ [NL] @ FENCE)) \<and>
   extractInstruction cpp_doc \<noteq> Inr (Some ''do X'') \<and>
   handleGetInstruction cpp_fetch cpp_args =
     Inr \<lparr>content = [\<lparr>c_type = ''text'',
             c_text = ''# Instruction: cpp'' @ [NL, NL] @ FENCE @ [NL]
               @ FENCE @ ''c++'' @ [NL] @ ''do X'' @ [NL] @ FENCE
               @ [NL] @ FENCE @ [NL, NL]
               @ ''Fetched from: https://openclaw-sandy-eight.vercel.app/registry/cpp.md''\<rparr>],
          isError = None\<rparr>"
proof -
  have a: "spec_first_fenced_block cpp_doc = Some ''do X''"
    by (simp add: spec_first_fenced_block_def cpp_doc_def HEADING_def FENCE_def NL_def trim_def)
  have s: "search INSTRUCTION_RE cpp_doc = None"
    by (simp add: cpp_doc_def INSTRUCTION_RE_def HEADING_def FENCE_def NL_def)
  have b: "extractInstruction cpp_doc =
      Inr (Some (FENCE @ ''c++'' @ [NL] @ ''do X'' @ [NL] @ FENCE))"
    by (simp add: extractInstruction_def cpp_doc_def INSTRUCTION_RE_def HEADING_def FENCE_def
        NL_def trim_def)
  have c: "extractInstruction cpp_doc \<noteq> Inr (Some ''do X'')"
    unfolding b by (simp add: FENCE_def)
  have f: "fetchFile cpp_fetch (Some ''cpp'') = Inr cpp_doc"
    by (simp add: fetchFile_def cpp_fetch_def ok_def)
  have d: "handleGetInstruction cpp_fetch cpp_args =
     Inr \<lparr>content = [\<lparr>c_type = ''text'',
             c_text = ''# Instruction: cpp'' @ [NL, NL] @ FENCE @ [NL]
               @ FENCE @ ''c++'' @ [NL] @ ''do X'' @ [NL] @ FENCE
               @ [NL] @ FENCE @ [NL, NL]
               @ ''Fetched from: https://openclaw-sandy-eight.vercel.app/registry/cpp.md''\<rparr>],
          isError = None\<rparr>"
    by (simp add: handleGetInstruction_def cpp_args_def no_args_def f b text_result_def
        BASE_URL_def FENCE_def)
  from a s b c d show ?thesis by (simp add: cpp_doc_def)
qed




end
